theory Spec2Isabelle
  imports Complex_Main
begin

section \<open>The facility-location instance reader and LP formulator (lpinstance.py)\<close>

text \<open>
  The development follows \<^verbatim>\<open>src/lpinstance.py\<close>: the dataclass \<^verbatim>\<open>LPInstance\<close>,
  the reader \<^verbatim>\<open>getLPInstance\<close> and the class \<^verbatim>\<open>LPSolver\<close>.

  Conventions of the embedding.
  \<^item> Python \<^verbatim>\<open>int\<close> is \<open>int\<close>; Python \<^verbatim>\<open>float\<close> and numpy \<^verbatim>\<open>float64\<close> are read as
    real numbers (rounding is not modelled).
  \<^item> A numpy array of shape \<open>(r, c)\<close> is a list of \<open>r\<close> rows of length \<open>c\<close>; a
    one-dimensional array is a list.
  \<^item> Every exception that the source can raise is a value of \<open>py_error\<close>; a function
    that may raise returns \<open>py_error + 'a\<close> with \<open>Inl\<close> for the exception.
  \<^item> What the Python runtime and the file system supply (the contents of files, the
    builtins \<^verbatim>\<open>int\<close>, \<^verbatim>\<open>float\<close> and \<^verbatim>\<open>str\<close>) is collected in a record \<open>runtime\<close> and
    passed explicitly.
\<close>

subsection \<open>Exceptions and the runtime\<close>

datatype py_error = OSError | ValueError | IndexError | AttributeError | LibraryError

definition bind_e :: "py_error + 'a \<Rightarrow> ('a \<Rightarrow> py_error + 'b) \<Rightarrow> py_error + 'b" where
  "bind_e m f = (case m of Inl e \<Rightarrow> Inl e | Inr x \<Rightarrow> f x)"

text \<open>
  \<open>files\<close> gives, for a path that \<^verbatim>\<open>open(fileName, "r")\<close> can open and decode, the
  lines that successive \<^verbatim>\<open>readline()\<close> calls return; \<open>None\<close> is a path \<^verbatim>\<open>open\<close> fails on.
  \<open>py_int\<close> and \<open>py_float\<close> are the builtins \<^verbatim>\<open>int(s)\<close> and \<^verbatim>\<open>float(s)\<close> on a
  token, with \<open>None\<close> for the \<^verbatim>\<open>ValueError\<close> of a token they reject. \<open>py_str\<close> is the
  text \<^verbatim>\<open>{e}\<close> of an exception inside an f-string.
\<close>

record runtime =
  files :: "string \<Rightarrow> string list option"
  py_int :: "string \<Rightarrow> int option"
  py_float :: "string \<Rightarrow> real option"
  py_str :: "py_error \<Rightarrow> string"

subsection \<open>The instance record\<close>

record LPInstance =
  numCustomers :: int
  numFacilities :: int
  allocCostCF :: "real list list"
  demandC :: "real list"
  openingCostF :: "real list"
  capacityF :: "real list"
  numMaxVehiclePerFacility :: int
  truckDistLimit :: real
  truckUsageCost :: real
  distanceCF :: "real list list"

subsection \<open>Builtins used by the reader\<close>

text \<open>
  \<^verbatim>\<open>str.split()\<close> without arguments cuts at runs of whitespace and yields no empty
  token. The whitespace characters below code point 256 are listed.
\<close>

definition whitespace :: "char list" where
  "whitespace = [CHR 0x09, CHR 0x0A, CHR 0x0B, CHR 0x0C, CHR 0x0D,
                 CHR 0x1C, CHR 0x1D, CHR 0x1E, CHR 0x1F, CHR 0x20, CHR 0x85, CHR 0xA0]"

definition isspace :: "char \<Rightarrow> bool" where
  "isspace c = (c \<in> set whitespace)"

fun split_from :: "string \<Rightarrow> string \<Rightarrow> string list" where
  "split_from cur [] = (if cur = [] then [] else [cur])"
| "split_from cur (c # cs) =
     (if isspace c then (if cur = [] then split_from [] cs else cur # split_from [] cs)
      else split_from (cur @ [c]) cs)"

definition str_split :: "string \<Rightarrow> string list" where
  "str_split s = split_from [] s"

text \<open>\<^verbatim>\<open>fl.readline()\<close>: the next line and the rest of the file; the empty string at the end.\<close>

definition readline :: "string list \<Rightarrow> string \<times> string list" where
  "readline fl = (case fl of [] \<Rightarrow> ([], []) | l # rest \<Rightarrow> (l, rest))"

text \<open>\<^verbatim>\<open>[conv(i) for i in tokens]\<close>: the first token that \<open>conv\<close> rejects raises \<^verbatim>\<open>ValueError\<close>.\<close>

fun convert_all :: "(string \<Rightarrow> 'a option) \<Rightarrow> string list \<Rightarrow> py_error + 'a list" where
  "convert_all conv [] = Inr []"
| "convert_all conv (t # ts) =
     (case conv t of
        None \<Rightarrow> Inl ValueError
      | Some v \<Rightarrow> bind_e (convert_all conv ts) (\<lambda>vs. Inr (v # vs)))"

text \<open>\<^verbatim>\<open>a, b = values\<close>: any length other than two raises \<^verbatim>\<open>ValueError\<close>.\<close>

fun unpack2 :: "'a list \<Rightarrow> py_error + 'a \<times> 'a" where
  "unpack2 [a, b] = Inr (a, b)"
| "unpack2 vs = Inl ValueError"

text \<open>\<^verbatim>\<open>np.zeros((r, c))\<close>: a negative dimension raises \<^verbatim>\<open>ValueError\<close>.\<close>

definition np_zeros :: "int \<Rightarrow> int \<Rightarrow> py_error + real list list" where
  "np_zeros r c =
     (if r < 0 \<or> c < 0 then Inl ValueError
      else Inr (replicate (nat r) (replicate (nat c) 0)))"

text \<open>\<^verbatim>\<open>range(n)\<close> for an integer \<open>n\<close>; empty when \<open>n \<le> 0\<close>.\<close>

definition py_range :: "int \<Rightarrow> nat list" where
  "py_range n = [0..<nat n]"

text \<open>A \<^verbatim>\<open>for\<close> loop whose body may raise: the first exception ends the loop.\<close>

fun for_each :: "'i list \<Rightarrow> ('i \<Rightarrow> 's \<Rightarrow> py_error + 's) \<Rightarrow> 's \<Rightarrow> py_error + 's" where
  "for_each [] body s = Inr s"
| "for_each (i # rest) body s = bind_e (body i s) (for_each rest body)"

subsection \<open>getLPInstance\<close>

text \<open>
  The loop body \<^verbatim>\<open>M[i,j] = raw[index]; index += 1\<close> on the state \<open>(M, index)\<close>. The read
  \<^verbatim>\<open>raw[index]\<close> of a Python list raises \<^verbatim>\<open>IndexError\<close> beyond its end; \<open>index\<close> is
  never negative.
\<close>

definition store_cell :: "real list \<Rightarrow> nat \<Rightarrow> nat \<Rightarrow> real list list \<times> nat
    \<Rightarrow> py_error + real list list \<times> nat" where
  "store_cell raw i j st =
     (case st of (M, index) \<Rightarrow>
        if index < length raw
        then Inr (M[i := (M ! i)[j := raw ! index]], index + 1)
        else Inl IndexError)"

text \<open>
  \<^verbatim>\<open>index = 0\<close> followed by the two nested loops over \<^verbatim>\<open>range(numCustomers)\<close> and
  \<^verbatim>\<open>range(numFacilities)\<close>.
\<close>

definition fill_matrix :: "int \<Rightarrow> int \<Rightarrow> real list \<Rightarrow> real list list
    \<Rightarrow> py_error + real list list" where
  "fill_matrix nC nF raw M0 =
     bind_e (for_each (py_range nC)
               (\<lambda>i. for_each (py_range nF) (\<lambda>j. store_cell raw i j)) (M0, 0))
       (\<lambda>st. Inr (fst st))"

definition open_file :: "runtime \<Rightarrow> string \<Rightarrow> py_error + string list" where
  "open_file rt fileName = (case files rt fileName of None \<Rightarrow> Inl OSError | Some fl \<Rightarrow> Inr fl)"

text \<open>The body of the \<^verbatim>\<open>try\<close> block, statement by statement.\<close>

definition getLPInstance_try :: "runtime \<Rightarrow> string \<Rightarrow> py_error + LPInstance" where
  "getLPInstance_try rt fileName =
     bind_e (open_file rt fileName) (\<lambda>fl0.
     let (l1, fl1) = readline fl0 in
     bind_e (convert_all (py_int rt) (str_split l1)) (\<lambda>dims.
     bind_e (unpack2 dims) (\<lambda>(nC, nF).
     let nMaxVehicle = nC in
     bind_e (np_zeros nC nF) (\<lambda>allocCost0.
     let (l2, fl2) = readline fl1 in
     bind_e (convert_all (py_float rt) (str_split l2)) (\<lambda>allocCostraw.
     bind_e (fill_matrix nC nF allocCostraw allocCost0) (\<lambda>allocCost.
     let (l3, fl3) = readline fl2 in
     bind_e (convert_all (py_float rt) (str_split l3)) (\<lambda>demand.
     let (l4, fl4) = readline fl3 in
     bind_e (convert_all (py_float rt) (str_split l4)) (\<lambda>openingCost.
     let (l5, fl5) = readline fl4 in
     bind_e (convert_all (py_float rt) (str_split l5)) (\<lambda>capacity.
     let (l6, fl6) = readline fl5 in
     bind_e (convert_all (py_float rt) (str_split l6)) (\<lambda>truck.
     bind_e (unpack2 truck) (\<lambda>(distLimit, usageCost).
     bind_e (np_zeros nC nF) (\<lambda>distance0.
     let (l7, fl7) = readline fl6 in
     bind_e (convert_all (py_float rt) (str_split l7)) (\<lambda>distanceCFraw.
     bind_e (fill_matrix nC nF distanceCFraw distance0) (\<lambda>distance.
     Inr \<lparr> numCustomers = nC, numFacilities = nF, allocCostCF = allocCost,
           demandC = demand, openingCostF = openingCost, capacityF = capacity,
           numMaxVehiclePerFacility = nMaxVehicle, truckDistLimit = distLimit,
           truckUsageCost = usageCost, distanceCF = distance \<rparr>))))))))))))))"

text \<open>
  \<^verbatim>\<open>except Exception as e\<close>: the message is printed and \<^verbatim>\<open>None\<close> is returned. The result
  is the pair of the lines printed and the value returned.
\<close>

definition getLPInstance :: "runtime \<Rightarrow> string \<Rightarrow> string list \<times> LPInstance option" where
  "getLPInstance rt fileName =
     (case getLPInstance_try rt fileName of
        Inr inst \<Rightarrow> ([], Some inst)
      | Inl e \<Rightarrow> ([''Could not read problem instance file due to error: '' @ py_str rt e], None))"


subsection \<open>The solver library boundary\<close>

text \<open>
  The docplex \<^verbatim>\<open>Model\<close> is an external collaborator. It is represented by the data that
  the calls of the source hand to it: the declared variables, the constraints added
  and the objective to minimise. Expressions are kept as the source builds them, one
  constructor for each library call or operator; \<open>eval\<close> gives their value under an
  assignment of the variables.
\<close>

datatype vartype = ContinuousVar | IntegerVar | BinaryVar

record dvar =
  lb :: real
  ub :: real
  vartype :: vartype

datatype expr =
    EVar nat
  | ESum "expr list"
  | EScalProd "expr list" "real list"
  | EMul real expr
  | EDiv expr real
  | EAdd expr expr

datatype sense = EQ | LE | GE

record constr =
  lhs :: expr
  sense :: sense
  rhs :: real
  ctname :: "string option"

record lp_model =
  variables :: "dvar list"
  constraints :: "constr list"
  objective :: "expr option"

record solution =
  objective_value :: real
  var_values :: "real list"

text \<open>
  Two things are left to the library and taken as parameters: what dividing an
  expression by zero does (\<open>zero_divide\<close>: an exception or some expression), and the
  optimiser behind \<^verbatim>\<open>Model.solve()\<close> (\<open>engine\<close>: a solution, or \<open>None\<close> for the falsy
  result when it finds none).
\<close>

record solver_lib =
  zero_divide :: "expr \<Rightarrow> py_error + expr"
  engine :: "lp_model \<Rightarrow> solution option"

text \<open>\<^verbatim>\<open>Model()\<close>\<close>

definition Model_new :: lp_model where
  "Model_new = \<lparr> variables = [], constraints = [], objective = None \<rparr>"

text \<open>\<^verbatim>\<open>model.continuous_var_list(n, lb, ub)\<close>: \<open>n\<close> fresh variables, returned in order.\<close>

definition continuous_var_list :: "int \<Rightarrow> real \<Rightarrow> real \<Rightarrow> lp_model \<Rightarrow> expr list \<times> lp_model" where
  "continuous_var_list n l u m =
     (map EVar [length (variables m)..<length (variables m) + nat n],
      m\<lparr> variables := variables m @ replicate (nat n) \<lparr> lb = l, ub = u, vartype = ContinuousVar \<rparr> \<rparr>)"

definition add_constraint :: "constr \<Rightarrow> lp_model \<Rightarrow> lp_model" where
  "add_constraint ct m = m\<lparr> constraints := constraints m @ [ct] \<rparr>"

definition minimize :: "expr \<Rightarrow> lp_model \<Rightarrow> lp_model" where
  "minimize e m = m\<lparr> objective := Some e \<rparr>"

text \<open>\<^verbatim>\<open>expression / k\<close>\<close>

definition truediv :: "solver_lib \<Rightarrow> expr \<Rightarrow> real \<Rightarrow> py_error + expr" where
  "truediv lib e k = (if k = 0 then zero_divide lib e else Inr (EDiv e k))"

text \<open>
  The value of an expression. \<^verbatim>\<open>scal_prod(terms, coefs)\<close> pairs the terms with the
  coefficients in order; the results below use it on lists of equal length only.
\<close>

fun eval :: "(nat \<Rightarrow> real) \<Rightarrow> expr \<Rightarrow> real" where
  "eval v (EVar i) = v i"
| "eval v (ESum es) = sum_list (map (eval v) es)"
| "eval v (EScalProd ts cs) = sum_list (map2 (*) (map (eval v) ts) cs)"
| "eval v (EMul k e) = k * eval v e"
| "eval v (EDiv e k) = eval v e / k"
| "eval v (EAdd a b) = eval v a + eval v b"

definition holds :: "(nat \<Rightarrow> real) \<Rightarrow> constr \<Rightarrow> bool" where
  "holds v ct =
     (case sense ct of
        EQ \<Rightarrow> eval v (lhs ct) = rhs ct
      | LE \<Rightarrow> eval v (lhs ct) \<le> rhs ct
      | GE \<Rightarrow> eval v (lhs ct) \<ge> rhs ct)"

definition in_bounds :: "(nat \<Rightarrow> real) \<Rightarrow> lp_model \<Rightarrow> bool" where
  "in_bounds v m =
     list_all (\<lambda>i. lb (variables m ! i) \<le> v i \<and> v i \<le> ub (variables m ! i))
       [0..<length (variables m)]"

definition feasible :: "(nat \<Rightarrow> real) \<Rightarrow> lp_model \<Rightarrow> bool" where
  "feasible v m = (in_bounds v m \<and> list_all (holds v) (constraints m))"

text \<open>The assignment a solution stands for.\<close>

definition value_of :: "solution \<Rightarrow> nat \<Rightarrow> real" where
  "value_of sol i = (if i < length (var_values sol) then var_values sol ! i else 0)"

subsection \<open>numpy indexing\<close>

text \<open>\<^verbatim>\<open>a[f]\<close> on a one-dimensional array with \<open>f \<ge> 0\<close>; \<^verbatim>\<open>IndexError\<close> beyond the end.\<close>

definition np_index :: "real list \<Rightarrow> nat \<Rightarrow> py_error + real" where
  "np_index a f = (if f < length a then Inr (a ! f) else Inl IndexError)"

text \<open>\<^verbatim>\<open>a[:,f]\<close> on a two-dimensional array: column \<open>f\<close>.\<close>

definition np_column :: "real list list \<Rightarrow> nat \<Rightarrow> py_error + real list" where
  "np_column a f =
     (if list_all (\<lambda>row. f < length row) a then Inr (map (\<lambda>row. row ! f) a) else Inl IndexError)"

subsection \<open>LPSolver\<close>

record LPSolver =
  lpinst :: "LPInstance option"
  model :: lp_model

text \<open>\<^verbatim>\<open>__init__\<close>: the lines printed by the reader, and the object.\<close>

definition LPSolver_init :: "runtime \<Rightarrow> string \<Rightarrow> string list \<times> LPSolver" where
  "LPSolver_init rt filename =
     (let (printed, inst) = getLPInstance rt filename
      in (printed, \<lparr> lpinst = inst, model = Model_new \<rparr>))"

text \<open>
  A loop over a model that is mutated in place: an exception ends the loop and the
  model keeps what was added before it.
\<close>

fun for_loop :: "'i list \<Rightarrow> ('i \<Rightarrow> 's \<Rightarrow> (py_error + unit) \<times> 's) \<Rightarrow> 's \<Rightarrow> (py_error + unit) \<times> 's" where
  "for_loop [] body s = (Inr (), s)"
| "for_loop (i # rest) body s =
     (case body i s of
        (Inl e, s') \<Rightarrow> (Inl e, s')
      | (Inr u, s') \<Rightarrow> for_loop rest body s')"

text \<open>\<^verbatim>\<open>model.sum(term(f) for f in range(n))\<close>: the terms in order, or the first exception.\<close>

fun collect :: "'i list \<Rightarrow> ('i \<Rightarrow> py_error + 'a) \<Rightarrow> py_error + 'a list" where
  "collect [] term = Inr []"
| "collect (i # rest) term =
     bind_e (term i) (\<lambda>t. bind_e (collect rest term) (\<lambda>ts. Inr (t # ts)))"

text \<open>\<^verbatim>\<open>x = [model.continuous_var_list(numCustomers, 0, 1) for _ in range(numFacilities)]\<close>\<close>

fun var_lists :: "nat list \<Rightarrow> int \<Rightarrow> lp_model \<Rightarrow> expr list list \<times> lp_model" where
  "var_lists [] n m = ([], m)"
| "var_lists (f # rest) n m =
     (let (xs, m1) = continuous_var_list n 0 1 m;
          (xss, m2) = var_lists rest n m1
      in (xs # xss, m2))"

text \<open>The decimal text of \<^verbatim>\<open>{f}\<close> in the constraint name.\<close>

fun str_nat :: "nat \<Rightarrow> string" where
  "str_nat n =
     (if n < 10 then [char_of (48 + n)]
      else str_nat (n div 10) @ [char_of (48 + n mod 10)])"

text \<open>
  The three constraints of the source, as the comparison operators build them:
  \<^verbatim>\<open>model.sum(x[f][c] for f in range(numFacilities)) == 1\<close>,
  \<^verbatim>\<open>model.scal_prod(terms=x[f], coefs=demandC) <= capacityF[f]\<close> with its name, and
  \<^verbatim>\<open>q <= numMaxVehiclePerFacility\<close> for the quotient \<open>q\<close> of the truck constraint.
\<close>

definition coverage_ct :: "LPInstance \<Rightarrow> expr list list \<Rightarrow> nat \<Rightarrow> constr" where
  "coverage_ct inst x c =
     \<lparr> lhs = ESum (map (\<lambda>f. x ! f ! c) (py_range (numFacilities inst))),
       sense = EQ, rhs = 1, ctname = None \<rparr>"

definition capacity_ct :: "LPInstance \<Rightarrow> expr list list \<Rightarrow> nat \<Rightarrow> real \<Rightarrow> constr" where
  "capacity_ct inst x f cap =
     \<lparr> lhs = EScalProd (x ! f) (demandC inst), sense = LE, rhs = cap,
       ctname = Some (''CapacityConstraint_F'' @ str_nat f) \<rparr>"

definition truck_ct :: "LPInstance \<Rightarrow> expr \<Rightarrow> constr" where
  "truck_ct inst q =
     \<lparr> lhs = q, sense = LE, rhs = real_of_int (numMaxVehiclePerFacility inst),
       ctname = None \<rparr>"

text \<open>The three constraint loops, one body each.\<close>

definition demand_satisfied :: "LPInstance \<Rightarrow> expr list list \<Rightarrow> nat \<Rightarrow> lp_model
    \<Rightarrow> (py_error + unit) \<times> lp_model" where
  "demand_satisfied inst x c m = (Inr (), add_constraint (coverage_ct inst x c) m)"

definition facility_capacity :: "LPInstance \<Rightarrow> expr list list \<Rightarrow> nat \<Rightarrow> lp_model
    \<Rightarrow> (py_error + unit) \<times> lp_model" where
  "facility_capacity inst x f m =
     (case np_index (capacityF inst) f of
        Inl e \<Rightarrow> (Inl e, m)
      | Inr cap \<Rightarrow> (Inr (), add_constraint (capacity_ct inst x f cap) m))"

definition max_truck :: "solver_lib \<Rightarrow> LPInstance \<Rightarrow> expr list list \<Rightarrow> nat \<Rightarrow> lp_model
    \<Rightarrow> (py_error + unit) \<times> lp_model" where
  "max_truck lib inst x f m =
     (case bind_e (np_column (distanceCF inst) f)
             (\<lambda>col. truediv lib (EScalProd (x ! f) col) (truckDistLimit inst)) of
        Inl e \<Rightarrow> (Inl e, m)
      | Inr q \<Rightarrow> (Inr (), add_constraint (truck_ct inst q) m))"

text \<open>The three sums of \<^verbatim>\<open>total_cost\<close>, one summand each, and their sum.\<close>

definition opening_term :: "solver_lib \<Rightarrow> LPInstance \<Rightarrow> expr list list \<Rightarrow> nat \<Rightarrow> py_error + expr" where
  "opening_term lib inst x f =
     bind_e (np_index (openingCostF inst) f) (\<lambda>oc.
     bind_e (np_index (capacityF inst) f) (\<lambda>cap.
     truediv lib (EMul oc (EScalProd (x ! f) (demandC inst))) cap))"

definition allocation_term :: "LPInstance \<Rightarrow> expr list list \<Rightarrow> nat \<Rightarrow> py_error + expr" where
  "allocation_term inst x f =
     bind_e (np_column (allocCostCF inst) f) (\<lambda>col. Inr (EScalProd (x ! f) col))"

definition truck_term :: "solver_lib \<Rightarrow> LPInstance \<Rightarrow> expr list list \<Rightarrow> nat \<Rightarrow> py_error + expr" where
  "truck_term lib inst x f =
     bind_e (np_column (distanceCF inst) f) (\<lambda>col.
     truediv lib (EMul (truckUsageCost inst) (EScalProd (x ! f) col)) (truckDistLimit inst))"

definition total_cost :: "solver_lib \<Rightarrow> LPInstance \<Rightarrow> expr list list \<Rightarrow> py_error + expr" where
  "total_cost lib inst x =
     bind_e (collect (py_range (numFacilities inst)) (opening_term lib inst x)) (\<lambda>os.
     bind_e (collect (py_range (numFacilities inst)) (allocation_term inst x)) (\<lambda>as.
     bind_e (collect (py_range (numFacilities inst)) (truck_term lib inst x)) (\<lambda>ts.
     Inr (EAdd (EAdd (ESum os) (ESum as)) (ESum ts)))))"

text \<open>
  The formulation part of \<^verbatim>\<open>solve\<close> for an instance: variables, the three constraint
  loops, the objective. The model is returned as it stands when an exception ends the
  formulation.
\<close>

definition formulate :: "solver_lib \<Rightarrow> LPInstance \<Rightarrow> lp_model \<Rightarrow> (py_error + unit) \<times> lp_model" where
  "formulate lib inst m0 =
     (let (x, m1) = var_lists (py_range (numFacilities inst)) (numCustomers inst) m0 in
      case for_loop (py_range (numCustomers inst)) (demand_satisfied inst x) m1 of
        (Inl e, m2) \<Rightarrow> (Inl e, m2)
      | (Inr u, m2) \<Rightarrow>
      (case for_loop (py_range (numFacilities inst)) (facility_capacity inst x) m2 of
        (Inl e, m3) \<Rightarrow> (Inl e, m3)
      | (Inr u, m3) \<Rightarrow>
      (case for_loop (py_range (numFacilities inst)) (max_truck lib inst x) m3 of
        (Inl e, m4) \<Rightarrow> (Inl e, m4)
      | (Inr u, m4) \<Rightarrow>
      (case total_cost lib inst x of
        Inl e \<Rightarrow> (Inl e, m4)
      | Inr cost \<Rightarrow> (Inr (), minimize cost m4)))))"

text \<open>
  \<^verbatim>\<open>solve\<close>. The first statement reads \<^verbatim>\<open>self.lpinst.numCustomers\<close>, which raises
  \<^verbatim>\<open>AttributeError\<close> when \<^verbatim>\<open>self.lpinst\<close> is \<^verbatim>\<open>None\<close> (the text it prints is not
  modelled). The result is the value returned, or the exception, and the object after
  the call.
\<close>

definition solve :: "solver_lib \<Rightarrow> LPSolver \<Rightarrow> (py_error + real) \<times> LPSolver" where
  "solve lib self =
     (case lpinst self of
        None \<Rightarrow> (Inl AttributeError, self)
      | Some inst \<Rightarrow>
          (case formulate lib inst (model self) of
             (Inl e, m) \<Rightarrow> (Inl e, self\<lparr> model := m \<rparr>)
           | (Inr u, m) \<Rightarrow>
               (case engine lib m of
                  Some sol \<Rightarrow> (Inr (objective_value sol), self\<lparr> model := m \<rparr>)
                | None \<Rightarrow> (Inr (- 1), self\<lparr> model := m \<rparr>))))"

subsection \<open>Vocabulary of the statements\<close>

text \<open>
  The file format is described by lines and their tokens: \<open>nth_line fl k\<close> is line
  \<open>k + 1\<close> of the file (empty beyond its end, as \<^verbatim>\<open>readline\<close> gives it), \<open>ints_of\<close> and
  \<open>floats_of\<close> are its tokens converted. \<open>reshape raw r c\<close> is the \<open>r \<times> c\<close> matrix whose
  element \<open>(i, j)\<close> is at flat position \<open>i * c + j\<close> of \<open>raw\<close>.
\<close>

definition nth_line :: "string list \<Rightarrow> nat \<Rightarrow> string" where
  "nth_line fl k = (if k < length fl then fl ! k else [])"

definition ints_of :: "runtime \<Rightarrow> string list \<Rightarrow> nat \<Rightarrow> py_error + int list" where
  "ints_of rt fl k = convert_all (py_int rt) (str_split (nth_line fl k))"

definition floats_of :: "runtime \<Rightarrow> string list \<Rightarrow> nat \<Rightarrow> py_error + real list" where
  "floats_of rt fl k = convert_all (py_float rt) (str_split (nth_line fl k))"

definition reshape :: "real list \<Rightarrow> nat \<Rightarrow> nat \<Rightarrow> real list list" where
  "reshape raw r c = map (\<lambda>i. map (\<lambda>j. raw ! (i * c + j)) [0..<c]) [0..<r]"

text \<open>The variable declared for \<^verbatim>\<open>x[f][c]\<close> in a fresh model with \<open>nC\<close> customers.\<close>

definition x_index :: "nat \<Rightarrow> nat \<Rightarrow> nat \<Rightarrow> nat" where
  "x_index nC f c = f * nC + c"

text \<open>The list \<^verbatim>\<open>x\<close> in a fresh model: \<open>nF\<close> lists of \<open>nC\<close> variables each.\<close>

definition x_vars :: "nat \<Rightarrow> nat \<Rightarrow> expr list list" where
  "x_vars nC nF = map (\<lambda>f. map (\<lambda>c. EVar (x_index nC f c)) [0..<nC]) [0..<nF]"

text \<open>The bounds and type every declared variable has.\<close>

definition unit_var :: dvar where
  "unit_var = \<lparr> lb = 0, ub = 1, vartype = ContinuousVar \<rparr>"

subsection \<open>Concrete files, runtime and library for the examples\<close>

text \<open>
  A runtime whose \<open>py_int\<close> reads an optional minus sign and decimal digits, whose
  \<open>py_float\<close> reads the same tokens as reals, and whose file system holds the files
  below. Each line ends with the newline that \<^verbatim>\<open>readline\<close> keeps.
\<close>

definition digit_of :: "char \<Rightarrow> nat option" where
  "digit_of = map_of [(CHR ''0'', 0), (CHR ''1'', 1), (CHR ''2'', 2), (CHR ''3'', 3), (CHR ''4'', 4),
                      (CHR ''5'', 5), (CHR ''6'', 6), (CHR ''7'', 7), (CHR ''8'', 8), (CHR ''9'', 9)]"

fun dec_nat :: "nat \<Rightarrow> string \<Rightarrow> nat option" where
  "dec_nat acc [] = Some acc"
| "dec_nat acc (c # cs) =
     (case digit_of c of None \<Rightarrow> None | Some d \<Rightarrow> dec_nat (10 * acc + d) cs)"

definition dec_int :: "string \<Rightarrow> int option" where
  "dec_int s =
     (case s of
        [] \<Rightarrow> None
      | c # cs \<Rightarrow>
          if c = CHR ''-'' then (if cs = [] then None else map_option (\<lambda>n. - int n) (dec_nat 0 cs))
          else map_option int (dec_nat 0 s))"

definition dec_real :: "string \<Rightarrow> real option" where
  "dec_real s = map_option real_of_int (dec_int s)"

definition error_name :: "py_error \<Rightarrow> string" where
  "error_name e =
     (case e of OSError \<Rightarrow> ''OSError'' | ValueError \<Rightarrow> ''ValueError'' | IndexError \<Rightarrow> ''IndexError''
      | AttributeError \<Rightarrow> ''AttributeError'' | LibraryError \<Rightarrow> ''LibraryError'')"

definition nl :: "string \<Rightarrow> string" where
  "nl s = s @ [CHR 0x0A]"

text \<open>The scenario of the specification: two customers, two facilities.\<close>

definition scenario_file :: "string list" where
  "scenario_file = map nl [''2 2'', ''1 2 2 1'', ''10 10'', ''5 5'', ''20 20'', ''100 1'', ''1 1 1 1'']"

text \<open>One customer, two facilities, and a capacity line with a single value.\<close>

definition short_capacity_file :: "string list" where
  "short_capacity_file = map nl [''1 2'', ''1 1'', ''1'', ''1 1'', ''5'', ''1 1'', ''1 1'']"

text \<open>One customer with demand 5, one facility with capacity 1, and an empty opening-cost line.\<close>

definition no_opening_file :: "string list" where
  "no_opening_file = map nl [''1 1'', ''1'', ''5'', [], ''1'', ''1 1'', ''1'']"

text \<open>One customer with demand 5, one facility with capacity 1.\<close>

definition overload_file :: "string list" where
  "overload_file = map nl [''1 1'', ''1'', ''5'', ''1'', ''1'', ''1 1'', ''1'']"

text \<open>One customer and one facility, and a demand line with three values.\<close>

definition long_demand_file :: "string list" where
  "long_demand_file = map nl [''1 1'', ''1'', ''5 6 7'', ''1'', ''1'', ''1 1'', ''1'']"

text \<open>Six lines only: no customer, one facility.\<close>

definition six_line_file :: "string list" where
  "six_line_file = map nl [''0 1'', [], [], ''1'', ''1'', ''1 1'']"

text \<open>One customer, one facility, allocation cost \<open>-1\<close>, every other cost zero.\<close>

definition negative_cost_file :: "string list" where
  "negative_cost_file = map nl [''1 1'', ''-1'', ''1'', ''0'', ''1'', ''1 0'', ''0'']"

text \<open>No customer, no facility, truck distance limit zero.\<close>

definition no_facility_file :: "string list" where
  "no_facility_file = map nl [''0 0'', [], [], [], [], ''0 1'', []]"

text \<open>One customer, one facility, a word in the demand line.\<close>

definition bad_token_file :: "string list" where
  "bad_token_file = map nl [''1 1'', ''1'', ''five'', ''1'', ''1'', ''1 1'', ''1'']"

text \<open>One customer, one facility, truck distance limit zero.\<close>

definition zero_limit_file :: "string list" where
  "zero_limit_file = map nl [''1 1'', ''1'', ''1'', ''1'', ''1'', ''0 1'', ''1'']"

definition demo_files :: "string \<Rightarrow> string list option" where
  "demo_files = map_of
     [(''scenario.txt'', scenario_file),
      (''short_capacity.txt'', short_capacity_file),
      (''no_opening.txt'', no_opening_file),
      (''overload.txt'', overload_file),
      (''long_demand.txt'', long_demand_file),
      (''six_lines.txt'', six_line_file),
      (''negative_cost.txt'', negative_cost_file),
      (''no_facility.txt'', no_facility_file),
      (''bad_token.txt'', bad_token_file),
      (''zero_limit.txt'', zero_limit_file)]"

definition demo_rt :: runtime where
  "demo_rt = \<lparr> files = demo_files, py_int = dec_int, py_float = dec_real, py_str = error_name \<rparr>"

text \<open>
  An optimiser that tries one candidate assignment and returns it, with the value of
  the objective, when it is feasible; and a library that raises on a zero divisor.
\<close>

definition assignment :: "real list \<Rightarrow> nat \<Rightarrow> real" where
  "assignment cand i = (if i < length cand then cand ! i else 0)"

definition trial_engine :: "real list \<Rightarrow> lp_model \<Rightarrow> solution option" where
  "trial_engine cand m =
     (if feasible (assignment cand) m
      then Some \<lparr> objective_value = (case objective m of None \<Rightarrow> 0 | Some e \<Rightarrow> eval (assignment cand) e),
                  var_values = cand \<rparr>
      else None)"

definition demo_lib :: "real list \<Rightarrow> solver_lib" where
  "demo_lib cand = \<lparr> zero_divide = (\<lambda>e. Inl LibraryError), engine = trial_engine cand \<rparr>"


section \<open>Properties of the reader\<close>

lemma bind_e_Inr_iff: "bind_e m f = Inr y \<longleftrightarrow> (\<exists>x. m = Inr x \<and> f x = Inr y)"
  by (cases m) (simp_all add: bind_e_def)

lemma bind_e_Inr [simp]: "bind_e (Inr x) f = f x"
  by (simp add: bind_e_def)

lemma bind_e_Inl [simp]: "bind_e (Inl e) f = Inl e"
  by (simp add: bind_e_def)

lemma for_each_snoc:
  "for_each (xs @ [x]) body s = bind_e (for_each xs body s) (body x)"
proof (induction xs arbitrary: s)
  case Nil
  show ?case by (cases "body x s") simp_all
next
  case (Cons y ys)
  show ?case by (cases "body y s") (simp_all add: Cons.IH)
qed

lemma for_each_upt_Suc:
  "for_each [0..<Suc n] body s = bind_e (for_each [0..<n] body s) (body n)"
  by (simp add: for_each_snoc)

text \<open>The inner loop writes \<open>n\<close> cells of row \<open>i\<close> from position \<open>k\<close> of the tokens.\<close>

lemma inner_loop:
  assumes "i < length M" and "n \<le> length (M ! i)" and "k \<le> length raw"
  shows "for_each [0..<n] (\<lambda>j. store_cell raw i j) (M, k) =
     (if k + n \<le> length raw
      then Inr (M[i := map (\<lambda>j. raw ! (k + j)) [0..<n] @ drop n (M ! i)], k + n)
      else Inl IndexError)"
  using assms
proof (induction n)
  case 0
  then show ?case by simp
next
  case (Suc n)
  have n: "n < length (M ! i)" using Suc.prems by simp
  have IH: "for_each [0..<n] (\<lambda>j. store_cell raw i j) (M, k) =
     (if k + n \<le> length raw
      then Inr (M[i := map (\<lambda>j. raw ! (k + j)) [0..<n] @ drop n (M ! i)], k + n)
      else Inl IndexError)"
    using Suc by simp
  show ?case
  proof (cases "k + n \<le> length raw")
    case False
    then show ?thesis unfolding for_each_upt_Suc IH by simp
  next
    case True
    have upd: "(map (\<lambda>j. raw ! (k + j)) [0..<n] @ drop n (M ! i))[n := raw ! (k + n)]
        = map (\<lambda>j. raw ! (k + j)) [0..<Suc n] @ drop (Suc n) (M ! i)"
      using n by (simp add: list_update_append Cons_nth_drop_Suc [symmetric])
    show ?thesis unfolding for_each_upt_Suc IH using True Suc.prems(1) upd
      by (simp add: store_cell_def del: upt_Suc)
  qed
qed

text \<open>The outer loop has written \<open>n\<close> rows after \<open>n\<close> rounds, or has run out of tokens.\<close>

lemma outer_loop:
  assumes "n \<le> length M" and "\<forall>row \<in> set M. length row = F"
  shows "for_each [0..<n] (\<lambda>i. for_each [0..<F] (\<lambda>j. store_cell raw i j)) (M, 0) =
     (if n * F \<le> length raw
      then Inr (reshape raw n F @ drop n M, n * F)
      else Inl IndexError)"
  using assms
proof (induction n)
  case 0
  then show ?case by (simp add: reshape_def)
next
  case (Suc n)
  have n: "n < length M" using Suc.prems by simp
  show ?case
  proof (cases "n * F \<le> length raw")
    case False
    then have "\<not> Suc n * F \<le> length raw" by simp
    moreover have "for_each [0..<n] (\<lambda>i. for_each [0..<F] (\<lambda>j. store_cell raw i j)) (M, 0)
        = Inl IndexError"
      using Suc False by simp
    ultimately show ?thesis unfolding for_each_upt_Suc by simp
  next
    case True
    let ?M' = "reshape raw n F @ drop n M"
    have len: "length (reshape raw n F) = n" by (simp add: reshape_def)
    have i: "n < length ?M'" using n len by simp
    have row: "?M' ! n = M ! n" using n len by (simp add: nth_append)
    have rowlen: "length (M ! n) = F" using Suc.prems n by simp
    have inner: "for_each [0..<F] (\<lambda>j. store_cell raw n j) (?M', n * F) =
       (if n * F + F \<le> length raw
        then Inr (?M'[n := map (\<lambda>j. raw ! (n * F + j)) [0..<F] @ drop F (?M' ! n)], n * F + F)
        else Inl IndexError)"
      using i row rowlen True by (intro inner_loop) simp_all
    have upd: "?M'[n := map (\<lambda>j. raw ! (n * F + j)) [0..<F]]
        = reshape raw (Suc n) F @ drop (Suc n) M"
      using n len by (simp add: list_update_append Cons_nth_drop_Suc [symmetric] reshape_def)
    have prev: "for_each [0..<n] (\<lambda>i. for_each [0..<F] (\<lambda>j. store_cell raw i j)) (M, 0)
        = Inr (?M', n * F)"
      using Suc True by simp
    show ?thesis unfolding for_each_upt_Suc prev using inner upd row rowlen
      by (simp add: add.commute del: upt_Suc)
  qed
qed

lemma fill_matrix_zeros:
  "fill_matrix nC nF raw (replicate (nat nC) (replicate (nat nF) 0)) =
     (if nat nC * nat nF \<le> length raw then Inr (reshape raw (nat nC) (nat nF))
      else Inl IndexError)"
  using outer_loop [of "nat nC" "replicate (nat nC) (replicate (nat nF) 0)" "nat nF" raw]
  by (simp add: fill_matrix_def py_range_def)

lemma readline_drop: "readline (drop k fl) = (nth_line fl k, drop (Suc k) fl)"
proof (cases "k < length fl")
  case True
  then show ?thesis
    by (simp add: readline_def nth_line_def Cons_nth_drop_Suc [symmetric])
next
  case False
  then show ?thesis by (simp add: readline_def nth_line_def)
qed

lemma readline_0: "readline fl = (nth_line fl 0, drop (Suc 0) fl)"
  using readline_drop [of 0 fl] by simp

lemma nth_line_drop: "nth_line (drop k fl) j = nth_line fl (k + j)"
  by (auto simp add: nth_line_def)

lemma unpack2_Inr_iff: "unpack2 vs = Inr p \<longleftrightarrow> vs = [fst p, snd p]"
  by (cases "(vs)" rule: unpack2.cases) auto

lemma convert_all_Inr_iff:
  "convert_all conv ts = Inr vs \<longleftrightarrow> map conv ts = map Some vs"
proof (induction ts arbitrary: vs)
  case Nil
  then show ?case by auto
next
  case (Cons t ts)
  show ?case
  proof (cases "conv t")
    case None
    then show ?thesis by (cases vs) auto
  next
    case (Some v)
    then show ?thesis using Cons.IH
      by (cases vs) (auto simp add: bind_e_Inr_iff)
  qed
qed

text \<open>When the \<^verbatim>\<open>try\<close> block succeeds, and what it returns then.\<close>

lemma getLPInstance_try_intro:
  assumes "files rt fileName = Some fl"
    and "ints_of rt fl 0 = Inr [nC, nF]" and "0 \<le> nC" and "0 \<le> nF"
    and "floats_of rt fl 1 = Inr raw2" and "nat nC * nat nF \<le> length raw2"
    and "floats_of rt fl 2 = Inr dem"
    and "floats_of rt fl 3 = Inr opn"
    and "floats_of rt fl 4 = Inr cap"
    and "floats_of rt fl 5 = Inr [dlim, ucost]"
    and "floats_of rt fl 6 = Inr raw7" and "nat nC * nat nF \<le> length raw7"
  shows "getLPInstance_try rt fileName =
     Inr \<lparr> numCustomers = nC, numFacilities = nF,
           allocCostCF = reshape raw2 (nat nC) (nat nF),
           demandC = dem, openingCostF = opn, capacityF = cap,
           numMaxVehiclePerFacility = nC, truckDistLimit = dlim,
           truckUsageCost = ucost,
           distanceCF = reshape raw7 (nat nC) (nat nF) \<rparr>"
  using assms
  unfolding getLPInstance_try_def open_file_def floats_of_def ints_of_def
  by (simp add: readline_0 nth_line_drop np_zeros_def fill_matrix_zeros eval_nat_numeral)

lemma getLPInstance_try_elim:
  assumes "getLPInstance_try rt fileName = Inr inst"
  shows "\<exists>fl nC nF raw2 dem opn cap dlim ucost raw7.
       files rt fileName = Some fl \<and>
       ints_of rt fl 0 = Inr [nC, nF] \<and> 0 \<le> nC \<and> 0 \<le> nF \<and>
       floats_of rt fl 1 = Inr raw2 \<and> nat nC * nat nF \<le> length raw2 \<and>
       floats_of rt fl 2 = Inr dem \<and>
       floats_of rt fl 3 = Inr opn \<and>
       floats_of rt fl 4 = Inr cap \<and>
       floats_of rt fl 5 = Inr [dlim, ucost] \<and>
       floats_of rt fl 6 = Inr raw7 \<and> nat nC * nat nF \<le> length raw7 \<and>
       inst = \<lparr> numCustomers = nC, numFacilities = nF,
                allocCostCF = reshape raw2 (nat nC) (nat nF),
                demandC = dem, openingCostF = opn, capacityF = cap,
                numMaxVehiclePerFacility = nC, truckDistLimit = dlim,
                truckUsageCost = ucost,
                distanceCF = reshape raw7 (nat nC) (nat nF) \<rparr>"
  using assms
  unfolding getLPInstance_try_def open_file_def floats_of_def ints_of_def
  apply (cases "files rt fileName")
   apply simp
  apply (simp add: readline_0 nth_line_drop bind_e_Inr_iff unpack2_Inr_iff np_zeros_def
      fill_matrix_zeros eval_nat_numeral split: prod.splits if_splits)
  apply (auto simp: bind_e_Inr_iff unpack2_Inr_iff fill_matrix_zeros split: if_splits)
  done

lemma getLPInstance_Some_iff:
  "snd (getLPInstance rt fileName) = Some inst \<longleftrightarrow> getLPInstance_try rt fileName = Inr inst"
  by (simp add: getLPInstance_def split: sum.splits)

lemma reshape_length: "length (reshape raw r c) = r"
  by (simp add: reshape_def)

lemma reshape_row_length: "row \<in> set (reshape raw r c) \<Longrightarrow> length row = c"
  by (auto simp add: reshape_def)

lemma reshape_nth: "i < r \<Longrightarrow> j < c \<Longrightarrow> reshape raw r c ! i ! j = raw ! (i * c + j)"
  by (simp add: reshape_def)

lemma take_drop_as_map:
  "k + c \<le> length raw \<Longrightarrow> map (\<lambda>j. raw ! (k + j)) [0..<c] = take c (drop k raw)"
  by (rule nth_equalityI) simp_all

lemma concat_reshape: "r * c \<le> length raw \<Longrightarrow> concat (reshape raw r c) = take (r * c) raw"
proof (induction r)
  case 0
  then show ?case by (simp add: reshape_def)
next
  case (Suc r)
  have le: "r * c + c \<le> length raw" using Suc.prems by (simp add: add.commute)
  then have "r * c \<le> length raw" by simp
  then have IH: "concat (reshape raw r c) = take (r * c) raw" by (rule Suc.IH)
  have "concat (reshape raw (Suc r) c)
      = concat (reshape raw r c) @ map (\<lambda>j. raw ! (r * c + j)) [0..<c]"
    by (simp add: reshape_def)
  also have "\<dots> = take (r * c) raw @ take c (drop (r * c) raw)"
    using le by (simp add: IH take_drop_as_map)
  also have "\<dots> = take (r * c + c) raw" by (simp add: take_add)
  finally show ?case by (simp add: add.commute)
qed

text \<open>The reader on the scenario file.\<close>

lemma scenario_parse:
  "getLPInstance demo_rt ''scenario.txt'' =
     ([], Some \<lparr> numCustomers = 2, numFacilities = 2, allocCostCF = [[1, 2], [2, 1]],
                 demandC = [10, 10], openingCostF = [5, 5], capacityF = [20, 20],
                 numMaxVehiclePerFacility = 2, truckDistLimit = 100, truckUsageCost = 1,
                 distanceCF = [[1, 1], [1, 1]] \<rparr>)"
  by code_simp

text \<open>
  C8. For every instance that the reader returns, \<open>numMaxVehiclePerFacility\<close> equals
  the parsed \<open>numCustomers\<close>, the first integer of line 1; no token of the file is read
  for it.
\<close>

theorem maxVehicles_is_numCustomers:
  assumes "snd (getLPInstance rt fileName) = Some inst"
  shows "numMaxVehiclePerFacility inst = numCustomers inst \<and>
         (\<exists>fl. files rt fileName = Some fl \<and>
               ints_of rt fl 0 = Inr [numCustomers inst, numFacilities inst])"
proof -
  from assms have "getLPInstance_try rt fileName = Inr inst"
    by (simp add: getLPInstance_Some_iff)
  from getLPInstance_try_elim [OF this] show ?thesis by auto
qed

theorem maxVehicles_is_numCustomers_witness:
  "\<exists>inst. snd (getLPInstance demo_rt ''scenario.txt'') = Some inst \<and>
          numMaxVehiclePerFacility inst = 2 \<and> numCustomers inst = 2"
proof -
  let ?inst = "\<lparr> numCustomers = 2, numFacilities = 2, allocCostCF = [[1, 2], [2, 1]],
                 demandC = [10, 10], openingCostF = [5, 5], capacityF = [20, 20],
                 numMaxVehiclePerFacility = 2, truckDistLimit = 100, truckUsageCost = 1,
                 distanceCF = [[1, 1], [1, 1]] \<rparr>"
  have p: "snd (getLPInstance demo_rt ''scenario.txt'') = Some ?inst"
    by (simp add: scenario_parse)
  from maxVehicles_is_numCustomers [OF p] p show ?thesis by simp
qed

lemma demo_files_scenario: "files demo_rt ''scenario.txt'' = Some scenario_file"
  by (simp add: demo_rt_def demo_files_def)

text \<open>
  C3. For a well-formed file that declares \<open>C\<close> customers and \<open>F\<close> facilities (every
  token numeric, two tokens on lines 1 and 6, \<open>C * F\<close> tokens on lines 2 and 7), the
  reader returns an instance whose allocation-cost and distance matrices have \<open>C\<close> rows
  of \<open>F\<close> entries, element \<open>(c, f)\<close> being token \<open>c * F + f\<close> of line 2 and of line 7,
  and the rows of each matrix in order are the tokens of its line.
\<close>

theorem matrices_row_major:
  assumes "files rt fileName = Some fl"
    and "ints_of rt fl 0 = Inr [C, F]" and "0 \<le> C" and "0 \<le> F"
    and "floats_of rt fl 1 = Inr alloc" and "length alloc = nat C * nat F"
    and "floats_of rt fl 2 = Inr dem"
    and "floats_of rt fl 3 = Inr opn"
    and "floats_of rt fl 4 = Inr cap"
    and "floats_of rt fl 5 = Inr [dlim, ucost]"
    and "floats_of rt fl 6 = Inr dists" and "length dists = nat C * nat F"
  shows "\<exists>inst. snd (getLPInstance rt fileName) = Some inst \<and>
      numCustomers inst = C \<and> numFacilities inst = F \<and>
      length (allocCostCF inst) = nat C \<and>
      (\<forall>row \<in> set (allocCostCF inst). length row = nat F) \<and>
      (\<forall>c < nat C. \<forall>f < nat F. allocCostCF inst ! c ! f = alloc ! (c * nat F + f)) \<and>
      concat (allocCostCF inst) = alloc \<and>
      length (distanceCF inst) = nat C \<and>
      (\<forall>row \<in> set (distanceCF inst). length row = nat F) \<and>
      (\<forall>c < nat C. \<forall>f < nat F. distanceCF inst ! c ! f = dists ! (c * nat F + f)) \<and>
      concat (distanceCF inst) = dists"
proof -
  let ?inst = "\<lparr> numCustomers = C, numFacilities = F,
           allocCostCF = reshape alloc (nat C) (nat F),
           demandC = dem, openingCostF = opn, capacityF = cap,
           numMaxVehiclePerFacility = C, truckDistLimit = dlim,
           truckUsageCost = ucost,
           distanceCF = reshape dists (nat C) (nat F) \<rparr>"
  have "getLPInstance_try rt fileName = Inr ?inst"
    using assms by (intro getLPInstance_try_intro) simp_all
  then have parsed: "snd (getLPInstance rt fileName) = Some ?inst"
    by (simp add: getLPInstance_Some_iff)
  have a: "concat (reshape alloc (nat C) (nat F)) = alloc"
    using assms(6) by (simp add: concat_reshape)
  have d: "concat (reshape dists (nat C) (nat F)) = dists"
    using assms(12) by (simp add: concat_reshape)
  show ?thesis
    using parsed a d
    by (intro exI [of _ ?inst]) (simp add: reshape_length reshape_row_length reshape_nth)
qed

theorem matrices_row_major_witness:
  "\<exists>inst. snd (getLPInstance demo_rt ''scenario.txt'') = Some inst \<and>
      length (allocCostCF inst) = 2 \<and>
      allocCostCF inst ! 1 ! 0 = 2 \<and>
      concat (allocCostCF inst) = [1, 2, 2, 1] \<and>
      concat (distanceCF inst) = [1, 1, 1, 1]"
proof -
  have h2: "ints_of demo_rt scenario_file 0 = Inr [2, 2]" by code_simp
  have h3: "floats_of demo_rt scenario_file 1 = Inr [1, 2, 2, 1]" by code_simp
  have h4: "floats_of demo_rt scenario_file 2 = Inr [10, 10]" by code_simp
  have h5: "floats_of demo_rt scenario_file 3 = Inr [5, 5]" by code_simp
  have h6: "floats_of demo_rt scenario_file 4 = Inr [20, 20]" by code_simp
  have h7: "floats_of demo_rt scenario_file 5 = Inr [100, 1]" by code_simp
  have h8: "floats_of demo_rt scenario_file 6 = Inr [1, 1, 1, 1]" by code_simp
  from matrices_row_major [OF demo_files_scenario h2 _ _ h3 _ h4 h5 h6 h7 h8]
  obtain inst where i: "snd (getLPInstance demo_rt ''scenario.txt'') = Some inst"
    "length (allocCostCF inst) = nat 2"
    "\<forall>c < nat 2. \<forall>f < nat 2. allocCostCF inst ! c ! f = [1, 2, 2, 1 :: real] ! (c * nat 2 + f)"
    "concat (allocCostCF inst) = [1, 2, 2, 1]"
    "concat (distanceCF inst) = [1, 1, 1, 1]"
    by auto
  from i(3) have "allocCostCF inst ! 1 ! 0 = [1, 2, 2, 1 :: real] ! (1 * nat 2 + 0)"
    by simp
  then have "allocCostCF inst ! 1 ! 0 = 2" by simp
  with i show ?thesis by auto
qed




section \<open>Properties of the formulation\<close>

subsection \<open>The loops\<close>

lemma var_lists_eq:
  "var_lists fs n m =
     (map (\<lambda>k. map EVar [length (variables m) + k * nat n..<length (variables m) + k * nat n + nat n])
        [0..<length fs],
      m\<lparr> variables := variables m @
          replicate (length fs * nat n) \<lparr> lb = 0, ub = 1, vartype = ContinuousVar \<rparr> \<rparr>)"
proof (induction fs arbitrary: m)
  case Nil
  show ?case by simp
next
  case (Cons f fs)
  let ?d = "\<lparr> lb = 0::real, ub = 1::real, vartype = ContinuousVar \<rparr>"
  let ?m1 = "m\<lparr> variables := variables m @ replicate (nat n) ?d \<rparr>"
  have step: "continuous_var_list n 0 1 m =
      (map EVar [length (variables m)..<length (variables m) + nat n], ?m1)"
    by (simp add: continuous_var_list_def)
  have shift: "map (\<lambda>k. map EVar [length (variables ?m1) + k * nat n..<
                                  length (variables ?m1) + k * nat n + nat n]) [0..<length fs]
      = map (\<lambda>k. map EVar [length (variables m) + Suc k * nat n..<
                            length (variables m) + Suc k * nat n + nat n]) [0..<length fs]"
    by (simp add: add.assoc add.commute add.left_commute)
  have vars: "?m1\<lparr> variables := variables ?m1 @ replicate (length fs * nat n) ?d \<rparr>
      = m\<lparr> variables := variables m @ replicate (length (f # fs) * nat n) ?d \<rparr>"
    by (simp add: replicate_add [symmetric] add.commute)
  have ih: "var_lists fs n ?m1 =
      (map (\<lambda>k. map EVar [length (variables m) + Suc k * nat n..<
                            length (variables m) + Suc k * nat n + nat n]) [0..<length fs],
       m\<lparr> variables := variables m @ replicate (length (f # fs) * nat n) ?d \<rparr>)"
    unfolding Cons.IH [of ?m1] shift vars ..
  show ?case
    by (simp add: step ih map_upt_Suc del: upt_Suc)
qed

lemma for_loop_appends:
  assumes "\<And>i m. i \<in> set ixs \<Longrightarrow> body i m = (Inr (), add_constraint (g i) m)"
  shows "for_loop ixs body m = (Inr (), m\<lparr> constraints := constraints m @ map g ixs \<rparr>)"
  using assms
proof (induction ixs arbitrary: m)
  case Nil
  show ?case by simp
next
  case (Cons i ixs)
  have "for_loop (i # ixs) body m = for_loop ixs body (add_constraint (g i) m)"
    using Cons.prems [of i m] by simp
  also have "\<dots> = (Inr (), (add_constraint (g i) m)
      \<lparr> constraints := constraints (add_constraint (g i) m) @ map g ixs \<rparr>)"
    using Cons.prems by (intro Cons.IH) simp
  finally show ?case by (simp add: add_constraint_def)
qed


lemma collect_all:
  assumes "\<And>i. i \<in> set ixs \<Longrightarrow> term i = Inr (g i)"
  shows "collect ixs term = Inr (map g ixs)"
  using assms by (induction ixs) simp_all

subsection \<open>Values of the expressions\<close>

lemma sum_list_upt: "sum_list (map g [0..<n]) = (\<Sum>i<n. g i)"
  by (simp add: interv_sum_list_conv_sum_set_nat atLeast0LessThan)

lemma eval_ESum_upt: "eval v (ESum (map g [0..<n])) = (\<Sum>i<n. eval v (g i))"
  by (simp add: comp_def sum_list_upt)

lemma sum_list_map2_times:
  assumes "length xs = length ys"
  shows "sum_list (map2 (*) xs ys) = (\<Sum>i<length xs. xs ! i * (ys ! i :: real))"
proof -
  have "sum_list (map2 (*) xs ys) = (\<Sum>i = 0..<length (map2 (*) xs ys). map2 (*) xs ys ! i)"
    by (rule sum_list_sum_nth)
  also have "\<dots> = (\<Sum>i<length xs. xs ! i * ys ! i)"
    using assms by (intro sum.cong) (auto simp add: atLeast0LessThan)
  finally show ?thesis .
qed

lemma eval_EScalProd_vars:
  assumes "length cs = n"
  shows "eval v (EScalProd (map EVar [b..<b + n]) cs) = (\<Sum>c<n. v (b + c) * cs ! c)"
proof -
  have "eval v (EScalProd (map EVar [b..<b + n]) cs)
      = sum_list (map2 (*) (map v [b..<b + n]) cs)"
    by (simp add: comp_def)
  also have "\<dots> = (\<Sum>i<length (map v [b..<b + n]). map v [b..<b + n] ! i * cs ! i)"
    using assms by (intro sum_list_map2_times) simp
  also have "\<dots> = (\<Sum>c<n. v (b + c) * cs ! c)"
    by (intro sum.cong) simp_all
  finally show ?thesis .
qed
subsection \<open>The variables\<close>

lemma x_vars_upt: "map EVar [f * nC..<f * nC + nC] = map (\<lambda>c. EVar (x_index nC f c)) [0..<nC]"
  by (rule nth_equalityI) (simp_all add: x_index_def)

lemma var_lists_fresh:
  "var_lists (py_range nF) nC Model_new =
     (x_vars (nat nC) (nat nF),
      \<lparr> variables = replicate (nat nF * nat nC) unit_var, constraints = [], objective = None \<rparr>)"
  by (simp add: var_lists_eq py_range_def Model_new_def x_vars_def x_vars_upt unit_var_def)

lemma x_vars_nth: "f < nF \<Longrightarrow> x_vars nC nF ! f = map (\<lambda>c. EVar (x_index nC f c)) [0..<nC]"
  by (simp add: x_vars_def)

lemma x_vars_nth_nth: "f < nF \<Longrightarrow> c < nC \<Longrightarrow> x_vars nC nF ! f ! c = EVar (x_index nC f c)"
  by (simp add: x_vars_def)

subsection \<open>The formulation on a fresh model\<close>

lemma np_index_in_range: "f < length a \<Longrightarrow> np_index a f = Inr (a ! f)"
  by (simp add: np_index_def)

lemma np_column_in_range:
  "\<forall>row \<in> set a. f < length row \<Longrightarrow> np_column a f = Inr (map (\<lambda>row. row ! f) a)"
  by (simp add: np_column_def list_all_iff)

lemma truediv_nonzero: "k \<noteq> 0 \<Longrightarrow> truediv lib e k = Inr (EDiv e k)"
  by (simp add: truediv_def)

text \<open>
  The model after the three constraint loops, when the capacity vector is long enough
  and the distance limit is not zero.
\<close>

lemma constraint_loops:
  assumes rows: "\<forall>row \<in> set (distanceCF inst). length row = nat (numFacilities inst)"
    and cap: "nat (numFacilities inst) \<le> length (capacityF inst)"
    and lim: "truckDistLimit inst \<noteq> 0"
  shows "formulate lib inst Model_new =
     (let x = x_vars (nat (numCustomers inst)) (nat (numFacilities inst));
          m4 = \<lparr> variables = replicate (nat (numFacilities inst) * nat (numCustomers inst)) unit_var,
                 constraints =
                   map (coverage_ct inst x) [0..<nat (numCustomers inst)] @
                   map (\<lambda>f. capacity_ct inst x f (capacityF inst ! f)) [0..<nat (numFacilities inst)] @
                   map (\<lambda>f. truck_ct inst
                          (EDiv (EScalProd (x ! f) (map (\<lambda>row. row ! f) (distanceCF inst)))
                             (truckDistLimit inst))) [0..<nat (numFacilities inst)],
                 objective = None \<rparr>
      in case total_cost lib inst x of
           Inl e \<Rightarrow> (Inl e, m4)
         | Inr cost \<Rightarrow> (Inr (), minimize cost m4))"
proof -
  let ?nC = "nat (numCustomers inst)" and ?nF = "nat (numFacilities inst)"
  let ?x = "x_vars ?nC ?nF"
  let ?m1 = "\<lparr> variables = replicate (?nF * ?nC) unit_var, constraints = [], objective = None \<rparr>"
  let ?cov = "map (coverage_ct inst ?x) [0..<?nC]"
  let ?capc = "map (\<lambda>f. capacity_ct inst ?x f (capacityF inst ! f)) [0..<?nF]"
  let ?trk = "map (\<lambda>f. truck_ct inst
                 (EDiv (EScalProd (?x ! f) (map (\<lambda>row. row ! f) (distanceCF inst)))
                    (truckDistLimit inst))) [0..<?nF]"
  let ?m2 = "\<lparr> variables = replicate (?nF * ?nC) unit_var, constraints = ?cov,
               objective = None \<rparr>"
  let ?m3 = "\<lparr> variables = replicate (?nF * ?nC) unit_var, constraints = ?cov @ ?capc,
               objective = None \<rparr>"
  let ?m4 = "\<lparr> variables = replicate (?nF * ?nC) unit_var, constraints = ?cov @ ?capc @ ?trk,
               objective = None \<rparr>"
  have "for_loop [0..<?nC] (demand_satisfied inst ?x) ?m1
      = (Inr (), ?m1\<lparr> constraints := constraints ?m1 @ ?cov \<rparr>)"
    by (rule for_loop_appends) (simp add: demand_satisfied_def)
  then have l1: "for_loop (py_range (numCustomers inst)) (demand_satisfied inst ?x) ?m1
      = (Inr (), ?m2)"
    by (simp add: py_range_def)
  have "for_loop [0..<?nF] (facility_capacity inst ?x) ?m2
      = (Inr (), ?m2\<lparr> constraints := constraints ?m2 @ ?capc \<rparr>)"
  proof (rule for_loop_appends)
    fix i m assume "i \<in> set [0..<?nF]"
    then have "i < length (capacityF inst)" using cap by simp
    then show "facility_capacity inst ?x i m
        = (Inr (), add_constraint (capacity_ct inst ?x i (capacityF inst ! i)) m)"
      by (simp add: facility_capacity_def np_index_in_range)
  qed
  then have l2: "for_loop (py_range (numFacilities inst)) (facility_capacity inst ?x) ?m2
      = (Inr (), ?m3)"
    by (simp add: py_range_def)
  have "for_loop [0..<?nF] (max_truck lib inst ?x) ?m3
      = (Inr (), ?m3\<lparr> constraints := constraints ?m3 @ ?trk \<rparr>)"
  proof (rule for_loop_appends)
    fix i m assume "i \<in> set [0..<?nF]"
    then have "\<forall>row \<in> set (distanceCF inst). i < length row" using rows by simp
    then show "max_truck lib inst ?x i m
        = (Inr (), add_constraint (truck_ct inst
             (EDiv (EScalProd (?x ! i) (map (\<lambda>row. row ! i) (distanceCF inst)))
                (truckDistLimit inst))) m)"
      using lim by (simp add: max_truck_def np_column_in_range truediv_nonzero)
  qed
  then have l3: "for_loop (py_range (numFacilities inst)) (max_truck lib inst ?x) ?m3
      = (Inr (), ?m4)"
    by (simp add: py_range_def)
  show ?thesis
    unfolding formulate_def var_lists_fresh
    by (simp add: l1 l2 l3 Let_def split: sum.splits)
qed

lemma solve_model:
  "lpinst self = Some inst \<Longrightarrow>
     model (snd (solve lib self)) = snd (formulate lib inst (model self))"
  by (simp add: solve_def split: prod.splits sum.splits option.splits)

lemma solve_result:
  "lpinst self = Some inst \<Longrightarrow>
     fst (solve lib self) =
       (case fst (formulate lib inst (model self)) of
          Inl e \<Rightarrow> Inl e
        | Inr u \<Rightarrow>
            (case engine lib (snd (formulate lib inst (model self))) of
               Some sol \<Rightarrow> Inr (objective_value sol)
             | None \<Rightarrow> Inr (- 1)))"
  by (simp add: solve_def split: prod.splits sum.splits option.splits)

lemma LPSolver_init_snd:
  "snd (LPSolver_init rt fileName) = \<lparr> lpinst = snd (getLPInstance rt fileName), model = Model_new \<rparr>"
  by (simp add: LPSolver_init_def split: prod.splits)

lemma parsed_shape:
  assumes "snd (getLPInstance rt fileName) = Some inst"
  shows "0 \<le> numCustomers inst" and "0 \<le> numFacilities inst"
    and "length (allocCostCF inst) = nat (numCustomers inst)"
    and "\<forall>row \<in> set (allocCostCF inst). length row = nat (numFacilities inst)"
    and "length (distanceCF inst) = nat (numCustomers inst)"
    and "\<forall>row \<in> set (distanceCF inst). length row = nat (numFacilities inst)"
    and "numMaxVehiclePerFacility inst = numCustomers inst"
proof -
  from assms have "getLPInstance_try rt fileName = Inr inst"
    by (simp add: getLPInstance_Some_iff)
  from getLPInstance_try_elim [OF this]
  obtain nC nF raw2 dem opn cap dlim ucost raw7 where
    i: "inst = \<lparr> numCustomers = nC, numFacilities = nF,
                allocCostCF = reshape raw2 (nat nC) (nat nF),
                demandC = dem, openingCostF = opn, capacityF = cap,
                numMaxVehiclePerFacility = nC, truckDistLimit = dlim,
                truckUsageCost = ucost,
                distanceCF = reshape raw7 (nat nC) (nat nF) \<rparr>"
    and nn: "0 \<le> nC" "0 \<le> nF"
    by blast
  show "0 \<le> numCustomers inst" and "0 \<le> numFacilities inst"
    and "length (allocCostCF inst) = nat (numCustomers inst)"
    and "\<forall>row \<in> set (allocCostCF inst). length row = nat (numFacilities inst)"
    and "length (distanceCF inst) = nat (numCustomers inst)"
    and "\<forall>row \<in> set (distanceCF inst). length row = nat (numFacilities inst)"
    and "numMaxVehiclePerFacility inst = numCustomers inst"
    using nn by (simp_all add: i reshape_length reshape_row_length)
qed

subsection \<open>The declared variables\<close>







text \<open>
  C10. When the reader returns \<open>None\<close> for a path, constructing the solver object
  succeeds and stores \<open>None\<close>, and \<^verbatim>\<open>solve\<close> raises \<^verbatim>\<open>AttributeError\<close> at its first
  statement: it returns neither \<open>-1\<close> nor any other value, and leaves the object as it
  was.
\<close>

theorem absent_instance_solve_raises:
  assumes "snd (getLPInstance rt fileName) = None"
  shows "lpinst (snd (LPSolver_init rt fileName)) = None \<and>
         model (snd (LPSolver_init rt fileName)) = Model_new \<and>
         solve lib (snd (LPSolver_init rt fileName))
           = (Inl AttributeError, snd (LPSolver_init rt fileName)) \<and>
         fst (solve lib (snd (LPSolver_init rt fileName))) \<noteq> Inr (- 1)"
  using assms by (simp add: LPSolver_init_snd solve_def)

theorem absent_instance_solve_raises_witness:
  "snd (getLPInstance demo_rt ''missing.txt'') = None \<and>
   fst (solve (demo_lib []) (snd (LPSolver_init demo_rt ''missing.txt''))) = Inl AttributeError"
proof -
  have p: "snd (getLPInstance demo_rt ''missing.txt'') = None" by code_simp
  from absent_instance_solve_raises [OF p, of "demo_lib []"] p
  show ?thesis by simp
qed

subsection \<open>The constraints\<close>

lemma formulate_constraints:
  assumes "\<forall>row \<in> set (distanceCF inst). length row = nat (numFacilities inst)"
    and "nat (numFacilities inst) \<le> length (capacityF inst)"
    and "truckDistLimit inst \<noteq> 0"
  shows "constraints (snd (formulate lib inst Model_new)) =
     map (coverage_ct inst (x_vars (nat (numCustomers inst)) (nat (numFacilities inst))))
       [0..<nat (numCustomers inst)] @
     map (\<lambda>f. capacity_ct inst (x_vars (nat (numCustomers inst)) (nat (numFacilities inst))) f
            (capacityF inst ! f)) [0..<nat (numFacilities inst)] @
     map (\<lambda>f. truck_ct inst
            (EDiv (EScalProd (x_vars (nat (numCustomers inst)) (nat (numFacilities inst)) ! f)
                     (map (\<lambda>row. row ! f) (distanceCF inst)))
               (truckDistLimit inst))) [0..<nat (numFacilities inst)]"
  unfolding constraint_loops [OF assms]
  by (simp add: Let_def minimize_def split: sum.splits)

lemma eval_coverage:
  "c < nC \<Longrightarrow> eval v (ESum (map (\<lambda>f. x_vars nC nF ! f ! c) [0..<nF])) = (\<Sum>f<nF. v (x_index nC f c))"
  unfolding eval_ESum_upt by (rule sum.cong) (simp_all add: x_vars_nth_nth)

lemma eval_row_product:
  assumes "f < nF" and "length cs = nC"
  shows "eval v (EScalProd (x_vars nC nF ! f) cs) = (\<Sum>c<nC. v (x_index nC f c) * cs ! c)"
proof -
  have "x_vars nC nF ! f = map EVar [f * nC..<f * nC + nC]"
    using assms(1) by (simp add: x_vars_nth x_vars_upt)
  then show ?thesis
    using eval_EScalProd_vars [OF assms(2), of v "f * nC"] by (simp add: x_index_def)
qed

lemma eval_column_product:
  assumes "f < nF" and "length a = nC" and "\<forall>row \<in> set a. f < length row"
  shows "eval v (EScalProd (x_vars nC nF ! f) (map (\<lambda>row. row ! f) a))
     = (\<Sum>c<nC. v (x_index nC f c) * a ! c ! f)"
proof -
  have "eval v (EScalProd (x_vars nC nF ! f) (map (\<lambda>row. row ! f) a))
      = (\<Sum>c<nC. v (x_index nC f c) * map (\<lambda>row. row ! f) a ! c)"
    using assms by (intro eval_row_product) simp_all
  also have "\<dots> = (\<Sum>c<nC. v (x_index nC f c) * a ! c ! f)"
    using assms(2) by (intro sum.cong) simp_all
  finally show ?thesis .
qed

text \<open>
  C1, the claim as stated fails: the file with one customer, two facilities and a
  single capacity value is read into an instance, and \<^verbatim>\<open>solve\<close> raises \<^verbatim>\<open>IndexError\<close>
  at \<^verbatim>\<open>capacityF[1]\<close>, leaving a model with two constraints and no truck constraint.
\<close>

theorem short_capacity_breaks_constraints:
  "snd (getLPInstance demo_rt ''short_capacity.txt'') =
      Some \<lparr> numCustomers = 1, numFacilities = 2, allocCostCF = [[1, 1]],
             demandC = [1], openingCostF = [1, 1], capacityF = [5],
             numMaxVehiclePerFacility = 1, truckDistLimit = 1, truckUsageCost = 1,
             distanceCF = [[1, 1]] \<rparr> \<and>
   fst (solve (demo_lib [1, 0]) (snd (LPSolver_init demo_rt ''short_capacity.txt''))) = Inl IndexError \<and>
   map sense (constraints (model (snd (solve (demo_lib [1, 0])
      (snd (LPSolver_init demo_rt ''short_capacity.txt'')))))) = [EQ, LE]"
  by code_simp

text \<open>
  C1, amended. For every instance that the reader returns whose demand vector has
  \<open>numCustomers\<close> entries, whose capacity vector has at least \<open>numFacilities\<close> entries
  and whose truck distance limit is not zero, the model that \<^verbatim>\<open>solve\<close> builds in the
  fresh solver object has exactly \<open>numCustomers + 2 * numFacilities\<close> constraints, in
  three families: for each customer \<open>c\<close>, the sum over the facilities of \<open>x[f][c]\<close>
  equals 1; for each facility \<open>f\<close>, the sum over the customers of
  \<open>x[f][c] * demand[c]\<close> is at most \<open>capacity[f]\<close>; for each facility \<open>f\<close>, the sum over
  the customers of \<open>x[f][c] * distance[c][f]\<close>, divided by the truck distance limit,
  is at most \<open>numMaxVehiclePerFacility\<close>.
\<close>

theorem three_constraint_families:
  assumes parsed: "snd (getLPInstance rt fileName) = Some inst"
    and dem: "length (demandC inst) = nat (numCustomers inst)"
    and cap: "nat (numFacilities inst) \<le> length (capacityF inst)"
    and lim: "truckDistLimit inst \<noteq> 0"
    and m: "m = model (snd (solve lib (snd (LPSolver_init rt fileName))))"
    and nC: "nC = nat (numCustomers inst)" and nF: "nF = nat (numFacilities inst)"
  shows "length (constraints m) = nC + 2 * nF \<and>
    (\<forall>c < nC.
        sense (constraints m ! c) = EQ \<and> rhs (constraints m ! c) = 1 \<and>
        (\<forall>v. eval v (lhs (constraints m ! c)) = (\<Sum>f<nF. v (x_index nC f c)))) \<and>
    (\<forall>f < nF.
        sense (constraints m ! (nC + f)) = LE \<and>
        rhs (constraints m ! (nC + f)) = capacityF inst ! f \<and>
        (\<forall>v. eval v (lhs (constraints m ! (nC + f)))
              = (\<Sum>c<nC. v (x_index nC f c) * demandC inst ! c))) \<and>
    (\<forall>f < nF.
        sense (constraints m ! (nC + nF + f)) = LE \<and>
        rhs (constraints m ! (nC + nF + f)) = real_of_int (numMaxVehiclePerFacility inst) \<and>
        (\<forall>v. eval v (lhs (constraints m ! (nC + nF + f)))
              = (\<Sum>c<nC. v (x_index nC f c) * distanceCF inst ! c ! f) / truckDistLimit inst))"
proof -
  note shape = parsed_shape [OF parsed]
  let ?x = "x_vars nC nF"
  let ?cov = "map (coverage_ct inst ?x) [0..<nC]"
  let ?capc = "map (\<lambda>f. capacity_ct inst ?x f (capacityF inst ! f)) [0..<nF]"
  let ?trk = "map (\<lambda>f. truck_ct inst
                 (EDiv (EScalProd (?x ! f) (map (\<lambda>row. row ! f) (distanceCF inst)))
                    (truckDistLimit inst))) [0..<nF]"
  have cs: "constraints m = ?cov @ ?capc @ ?trk"
    using parsed formulate_constraints [OF shape(6) cap lim, of lib]
    by (simp add: m nC nF LPSolver_init_snd solve_model)
  have len: "length (constraints m) = nC + 2 * nF"
    by (simp add: cs)
  have cov: "constraints m ! c = coverage_ct inst ?x c" if "c < nC" for c
    using that by (simp add: cs nth_append)
  have capc: "constraints m ! (nC + f) = capacity_ct inst ?x f (capacityF inst ! f)"
    if "f < nF" for f
    using that by (simp add: cs nth_append)
  have trk: "constraints m ! (nC + nF + f) = truck_ct inst
       (EDiv (EScalProd (?x ! f) (map (\<lambda>row. row ! f) (distanceCF inst))) (truckDistLimit inst))"
    if "f < nF" for f
    using that by (simp add: cs nth_append)
  have rows: "\<forall>row \<in> set (distanceCF inst). f < length row" if "f < nF" for f
    using that shape(6) by (simp add: nF)
  have f1: "\<forall>c < nC.
        sense (constraints m ! c) = EQ \<and> rhs (constraints m ! c) = 1 \<and>
        (\<forall>v. eval v (lhs (constraints m ! c)) = (\<Sum>f<nF. v (x_index nC f c)))"
    by (simp add: cov coverage_ct_def py_range_def nF [symmetric] eval_coverage del: eval.simps)
  have f2: "\<forall>f < nF.
        sense (constraints m ! (nC + f)) = LE \<and>
        rhs (constraints m ! (nC + f)) = capacityF inst ! f \<and>
        (\<forall>v. eval v (lhs (constraints m ! (nC + f)))
              = (\<Sum>c<nC. v (x_index nC f c) * demandC inst ! c))"
  proof -
    have "length (demandC inst) = nC" using dem nC by simp
    then show ?thesis
      by (simp add: capc capacity_ct_def eval_row_product del: eval.simps)
  qed
  have f3: "\<forall>f < nF.
        sense (constraints m ! (nC + nF + f)) = LE \<and>
        rhs (constraints m ! (nC + nF + f)) = real_of_int (numMaxVehiclePerFacility inst) \<and>
        (\<forall>v. eval v (lhs (constraints m ! (nC + nF + f)))
              = (\<Sum>c<nC. v (x_index nC f c) * distanceCF inst ! c ! f) / truckDistLimit inst)"
  proof (intro allI impI)
    fix f assume f: "f < nF"
    have "eval v (EScalProd (?x ! f) (map (\<lambda>row. row ! f) (distanceCF inst)))
        = (\<Sum>c<nC. v (x_index nC f c) * distanceCF inst ! c ! f)" for v
      using f shape(5) rows [OF f] by (intro eval_column_product) (simp_all add: nC)
    then show "sense (constraints m ! (nC + nF + f)) = LE \<and>
        rhs (constraints m ! (nC + nF + f)) = real_of_int (numMaxVehiclePerFacility inst) \<and>
        (\<forall>v. eval v (lhs (constraints m ! (nC + nF + f)))
              = (\<Sum>c<nC. v (x_index nC f c) * distanceCF inst ! c ! f) / truckDistLimit inst)"
      using f by (simp add: trk truck_ct_def del: eval.simps(3))
  qed
  from len f1 f2 f3 show ?thesis by blast
qed

theorem three_constraint_families_witness:
  "length (constraints (model (snd (solve (demo_lib [1, 0, 0, 1])
      (snd (LPSolver_init demo_rt ''scenario.txt'')))))) = 6 \<and>
   rhs (constraints (model (snd (solve (demo_lib [1, 0, 0, 1])
      (snd (LPSolver_init demo_rt ''scenario.txt''))))) ! 3) = 20 \<and>
   eval (\<lambda>i. 1) (lhs (constraints (model (snd (solve (demo_lib [1, 0, 0, 1])
      (snd (LPSolver_init demo_rt ''scenario.txt''))))) ! 0)) = 2"
proof -
  let ?inst = "\<lparr> numCustomers = 2, numFacilities = 2, allocCostCF = [[1, 2], [2, 1]],
                 demandC = [10, 10], openingCostF = [5, 5], capacityF = [20, 20],
                 numMaxVehiclePerFacility = 2, truckDistLimit = 100, truckUsageCost = 1,
                 distanceCF = [[1, 1], [1, 1]] \<rparr>"
  let ?m = "model (snd (solve (demo_lib [1, 0, 0, 1]) (snd (LPSolver_init demo_rt ''scenario.txt''))))"
  have p: "snd (getLPInstance demo_rt ''scenario.txt'') = Some ?inst"
    by (simp add: scenario_parse)
  have h1: "length (demandC ?inst) = nat (numCustomers ?inst)" by simp
  have h2: "nat (numFacilities ?inst) \<le> length (capacityF ?inst)" by simp
  have h3: "truckDistLimit ?inst \<noteq> 0" by simp
  have h4: "2 = nat (numCustomers ?inst)" by simp
  have h5: "2 = nat (numFacilities ?inst)" by simp
  note t = three_constraint_families [OF p h1 h2 h3 refl h4 h5, of "demo_lib [1, 0, 0, 1]"]
  from t have a: "length (constraints ?m) = 2 + 2 * 2" by (rule conjunct1)
  from t have t2: "\<forall>f < 2.
        sense (constraints ?m ! (2 + f)) = LE \<and>
        rhs (constraints ?m ! (2 + f)) = capacityF ?inst ! f \<and>
        (\<forall>v. eval v (lhs (constraints ?m ! (2 + f)))
              = (\<Sum>c<2. v (x_index 2 f c) * demandC ?inst ! c))"
    by (rule conjunct1 [OF conjunct2 [OF conjunct2]])
  from t have t1: "\<forall>c < 2.
        sense (constraints ?m ! c) = EQ \<and> rhs (constraints ?m ! c) = 1 \<and>
        (\<forall>v. eval v (lhs (constraints ?m ! c)) = (\<Sum>f<2. v (x_index 2 f c)))"
    by (rule conjunct1 [OF conjunct2])
  have "(1::nat) < 2" by simp
  with t2 have "rhs (constraints ?m ! (2 + 1)) = capacityF ?inst ! 1" by blast
  then have b: "rhs (constraints ?m ! 3) = 20" by simp
  have "(0::nat) < 2" by simp
  with t1 have "eval (\<lambda>i. 1) (lhs (constraints ?m ! 0)) = (\<Sum>f<(2::nat). (1::real))"
    by blast
  then have c: "eval (\<lambda>i. 1) (lhs (constraints ?m ! 0)) = 2" by simp
  from a b c show ?thesis by simp
qed

subsection \<open>The objective\<close>

text \<open>
  The three sums of the objective when every index is in range and no divisor is zero.
\<close>

lemma total_cost_regular:
  assumes alloc: "\<forall>row \<in> set (allocCostCF inst). length row = nat (numFacilities inst)"
    and dists: "\<forall>row \<in> set (distanceCF inst). length row = nat (numFacilities inst)"
    and opn: "nat (numFacilities inst) \<le> length (openingCostF inst)"
    and cap: "nat (numFacilities inst) \<le> length (capacityF inst)"
    and capnz: "\<forall>f < nat (numFacilities inst). capacityF inst ! f \<noteq> 0"
    and lim: "truckDistLimit inst \<noteq> 0"
  shows "total_cost lib inst x =
     Inr (EAdd (EAdd
       (ESum (map (\<lambda>f. EDiv (EMul (openingCostF inst ! f) (EScalProd (x ! f) (demandC inst)))
                          (capacityF inst ! f)) [0..<nat (numFacilities inst)]))
       (ESum (map (\<lambda>f. EScalProd (x ! f) (map (\<lambda>row. row ! f) (allocCostCF inst)))
                 [0..<nat (numFacilities inst)])))
       (ESum (map (\<lambda>f. EDiv (EMul (truckUsageCost inst)
                                 (EScalProd (x ! f) (map (\<lambda>row. row ! f) (distanceCF inst))))
                          (truckDistLimit inst)) [0..<nat (numFacilities inst)])))"
proof -
  let ?nF = "nat (numFacilities inst)"
  have o: "collect [0..<?nF] (opening_term lib inst x) =
      Inr (map (\<lambda>f. EDiv (EMul (openingCostF inst ! f) (EScalProd (x ! f) (demandC inst)))
                      (capacityF inst ! f)) [0..<?nF])"
  proof (rule collect_all)
    fix i assume "i \<in> set [0..<?nF]"
    then have "i < length (openingCostF inst)" "i < length (capacityF inst)"
      "capacityF inst ! i \<noteq> 0"
      using opn cap capnz by simp_all
    then show "opening_term lib inst x i =
        Inr (EDiv (EMul (openingCostF inst ! i) (EScalProd (x ! i) (demandC inst)))
               (capacityF inst ! i))"
      by (simp add: opening_term_def np_index_in_range truediv_nonzero)
  qed
  have a: "collect [0..<?nF] (allocation_term inst x) =
      Inr (map (\<lambda>f. EScalProd (x ! f) (map (\<lambda>row. row ! f) (allocCostCF inst))) [0..<?nF])"
  proof (rule collect_all)
    fix i assume "i \<in> set [0..<?nF]"
    then have "\<forall>row \<in> set (allocCostCF inst). i < length row" using alloc by simp
    then show "allocation_term inst x i =
        Inr (EScalProd (x ! i) (map (\<lambda>row. row ! i) (allocCostCF inst)))"
      by (simp add: allocation_term_def np_column_in_range)
  qed
  have t: "collect [0..<?nF] (truck_term lib inst x) =
      Inr (map (\<lambda>f. EDiv (EMul (truckUsageCost inst)
                             (EScalProd (x ! f) (map (\<lambda>row. row ! f) (distanceCF inst))))
                      (truckDistLimit inst)) [0..<?nF])"
  proof (rule collect_all)
    fix i assume "i \<in> set [0..<?nF]"
    then have "\<forall>row \<in> set (distanceCF inst). i < length row" using dists by simp
    then show "truck_term lib inst x i =
        Inr (EDiv (EMul (truckUsageCost inst)
                     (EScalProd (x ! i) (map (\<lambda>row. row ! i) (distanceCF inst))))
               (truckDistLimit inst))"
      using lim by (simp add: truck_term_def np_column_in_range truediv_nonzero)
  qed
  show ?thesis
    unfolding total_cost_def py_range_def o a t by simp
qed

lemma eval_total_cost:
  assumes alloc: "length a = nC" "\<forall>row \<in> set a. length row = nF"
    and dists: "length d = nC" "\<forall>row \<in> set d. length row = nF"
    and dem: "length dm = nC"
  shows "eval v (EAdd (EAdd
       (ESum (map (\<lambda>f. EDiv (EMul (oc ! f) (EScalProd (x_vars nC nF ! f) dm)) (cp ! f)) [0..<nF]))
       (ESum (map (\<lambda>f. EScalProd (x_vars nC nF ! f) (map (\<lambda>row. row ! f) a)) [0..<nF])))
       (ESum (map (\<lambda>f. EDiv (EMul uc (EScalProd (x_vars nC nF ! f) (map (\<lambda>row. row ! f) d))) dl)
                 [0..<nF])))
     = (\<Sum>f<nF. oc ! f * (\<Sum>c<nC. v (x_index nC f c) * dm ! c) / cp ! f
               + (\<Sum>c<nC. v (x_index nC f c) * a ! c ! f)
               + uc * (\<Sum>c<nC. v (x_index nC f c) * d ! c ! f) / dl)"
proof -
  have e1: "eval v (EDiv (EMul (oc ! f) (EScalProd (x_vars nC nF ! f) dm)) (cp ! f))
      = oc ! f * (\<Sum>c<nC. v (x_index nC f c) * dm ! c) / cp ! f" if "f < nF" for f
    using eval_row_product [OF that dem, of v] by simp
  have e2: "eval v (EScalProd (x_vars nC nF ! f) (map (\<lambda>row. row ! f) a))
      = (\<Sum>c<nC. v (x_index nC f c) * a ! c ! f)" if "f < nF" for f
    using that alloc by (intro eval_column_product) simp_all
  have e3: "eval v (EDiv (EMul uc (EScalProd (x_vars nC nF ! f) (map (\<lambda>row. row ! f) d))) dl)
      = uc * (\<Sum>c<nC. v (x_index nC f c) * d ! c ! f) / dl" if "f < nF" for f
  proof -
    have "eval v (EScalProd (x_vars nC nF ! f) (map (\<lambda>row. row ! f) d))
        = (\<Sum>c<nC. v (x_index nC f c) * d ! c ! f)"
      using that dists by (intro eval_column_product) simp_all
    then show ?thesis by simp
  qed
  have s1: "eval v (ESum (map (\<lambda>f. EDiv (EMul (oc ! f) (EScalProd (x_vars nC nF ! f) dm)) (cp ! f))
        [0..<nF]))
      = (\<Sum>f<nF. oc ! f * (\<Sum>c<nC. v (x_index nC f c) * dm ! c) / cp ! f)"
    unfolding eval_ESum_upt by (rule sum.cong) (simp_all add: e1 del: eval.simps)
  have s2: "eval v (ESum (map (\<lambda>f. EScalProd (x_vars nC nF ! f) (map (\<lambda>row. row ! f) a)) [0..<nF]))
      = (\<Sum>f<nF. \<Sum>c<nC. v (x_index nC f c) * a ! c ! f)"
    unfolding eval_ESum_upt by (rule sum.cong) (simp_all add: e2 del: eval.simps)
  have s3: "eval v (ESum (map (\<lambda>f. EDiv (EMul uc
        (EScalProd (x_vars nC nF ! f) (map (\<lambda>row. row ! f) d))) dl) [0..<nF]))
      = (\<Sum>f<nF. uc * (\<Sum>c<nC. v (x_index nC f c) * d ! c ! f) / dl)"
    unfolding eval_ESum_upt by (rule sum.cong) (simp_all add: e3 del: eval.simps)
  show ?thesis
    unfolding eval.simps(6) s1 s2 s3 by (simp add: sum.distrib)
qed

text \<open>
  C2, the claim as stated fails: the file with an empty opening-cost line is read into
  an instance with nonzero capacity and nonzero distance limit, and \<^verbatim>\<open>solve\<close> raises
  \<^verbatim>\<open>IndexError\<close> at \<^verbatim>\<open>openingCostF[0]\<close>; no objective is set.
\<close>

theorem missing_opening_cost_no_objective:
  "snd (getLPInstance demo_rt ''no_opening.txt'') =
      Some \<lparr> numCustomers = 1, numFacilities = 1, allocCostCF = [[1]],
             demandC = [5], openingCostF = [], capacityF = [1],
             numMaxVehiclePerFacility = 1, truckDistLimit = 1, truckUsageCost = 1,
             distanceCF = [[1]] \<rparr> \<and>
   solve (demo_lib [1]) (snd (LPSolver_init demo_rt ''no_opening.txt'')) =
     (Inl IndexError,
      \<lparr> lpinst = snd (getLPInstance demo_rt ''no_opening.txt''),
        model = \<lparr> variables = [\<lparr> lb = 0, ub = 1, vartype = ContinuousVar \<rparr>],
                  constraints =
                    [\<lparr> lhs = ESum [EVar 0], sense = EQ, rhs = 1, ctname = None \<rparr>,
                     \<lparr> lhs = EScalProd [EVar 0] [5], sense = LE, rhs = 1,
                       ctname = Some ''CapacityConstraint_F0'' \<rparr>,
                     \<lparr> lhs = EDiv (EScalProd [EVar 0] [1]) 1, sense = LE, rhs = 1,
                       ctname = None \<rparr>],
                  objective = None \<rparr> \<rparr>)"
  by code_simp

lemma formulate_regular:
  assumes alloc: "\<forall>row \<in> set (allocCostCF inst). length row = nat (numFacilities inst)"
    and dists: "\<forall>row \<in> set (distanceCF inst). length row = nat (numFacilities inst)"
    and opn: "nat (numFacilities inst) \<le> length (openingCostF inst)"
    and cap: "nat (numFacilities inst) \<le> length (capacityF inst)"
    and capnz: "\<forall>f < nat (numFacilities inst). capacityF inst ! f \<noteq> 0"
    and lim: "truckDistLimit inst \<noteq> 0"
  shows "fst (formulate lib inst Model_new) = Inr ()"
    and "objective (snd (formulate lib inst Model_new)) =
      Some (EAdd (EAdd
       (ESum (map (\<lambda>f. EDiv (EMul (openingCostF inst ! f)
                  (EScalProd (x_vars (nat (numCustomers inst)) (nat (numFacilities inst)) ! f)
                     (demandC inst)))
                          (capacityF inst ! f)) [0..<nat (numFacilities inst)]))
       (ESum (map (\<lambda>f. EScalProd (x_vars (nat (numCustomers inst)) (nat (numFacilities inst)) ! f)
                          (map (\<lambda>row. row ! f) (allocCostCF inst)))
                 [0..<nat (numFacilities inst)])))
       (ESum (map (\<lambda>f. EDiv (EMul (truckUsageCost inst)
                  (EScalProd (x_vars (nat (numCustomers inst)) (nat (numFacilities inst)) ! f)
                     (map (\<lambda>row. row ! f) (distanceCF inst))))
                          (truckDistLimit inst)) [0..<nat (numFacilities inst)])))"
  unfolding constraint_loops [OF dists cap lim] Let_def
    total_cost_regular [OF alloc dists opn cap capnz lim]
  by (simp_all add: minimize_def)

text \<open>
  C2, amended. For every instance that the reader returns whose demand vector has
  \<open>numCustomers\<close> entries, whose opening-cost and capacity vectors have at least
  \<open>numFacilities\<close> entries, with every \<open>capacity[f]\<close> and the truck distance limit
  nonzero, the formulation completes, and the objective that \<^verbatim>\<open>solve\<close> sets for
  minimisation in the model it hands to the optimiser has, under every assignment, the
  value of the sum over the facilities \<open>f\<close> of
  \<open>openingCost[f] * (sum_c x[f][c] * demand[c]) / capacity[f]\<close> plus
  \<open>sum_c x[f][c] * allocationCost[c][f]\<close> plus
  \<open>truckUsageCost * (sum_c x[f][c] * distance[c][f]) / truckDistLimit\<close>.
\<close>

theorem objective_three_terms:
  assumes parsed: "snd (getLPInstance rt fileName) = Some inst"
    and dem: "length (demandC inst) = nat (numCustomers inst)"
    and opn: "nat (numFacilities inst) \<le> length (openingCostF inst)"
    and cap: "nat (numFacilities inst) \<le> length (capacityF inst)"
    and capnz: "\<forall>f < nat (numFacilities inst). capacityF inst ! f \<noteq> 0"
    and lim: "truckDistLimit inst \<noteq> 0"
    and m: "m = model (snd (solve lib (snd (LPSolver_init rt fileName))))"
    and nC: "nC = nat (numCustomers inst)" and nF: "nF = nat (numFacilities inst)"
  shows "\<exists>cost. objective m = Some cost \<and>
      (\<forall>v. eval v cost =
         (\<Sum>f<nF. openingCostF inst ! f * (\<Sum>c<nC. v (x_index nC f c) * demandC inst ! c)
                     / capacityF inst ! f
                 + (\<Sum>c<nC. v (x_index nC f c) * allocCostCF inst ! c ! f)
                 + truckUsageCost inst * (\<Sum>c<nC. v (x_index nC f c) * distanceCF inst ! c ! f)
                     / truckDistLimit inst)) \<and>
      fst (solve lib (snd (LPSolver_init rt fileName))) =
        (case engine lib m of Some sol \<Rightarrow> Inr (objective_value sol) | None \<Rightarrow> Inr (- 1))"
proof -
  note shape = parsed_shape [OF parsed]
  note reg = formulate_regular [OF shape(4) shape(6) opn cap capnz lim, of lib]
  have mform: "m = snd (formulate lib inst Model_new)"
    using parsed by (simp add: m LPSolver_init_snd solve_model)
  have sres: "fst (solve lib \<lparr> lpinst = Some inst, model = Model_new \<rparr>) =
      (case engine lib (snd (formulate lib inst Model_new)) of
         Some sol \<Rightarrow> Inr (objective_value sol) | None \<Rightarrow> Inr (- 1))"
    by (simp add: solve_result [where inst = inst] reg(1))
  have res: "fst (solve lib (snd (LPSolver_init rt fileName))) =
      (case engine lib m of Some sol \<Rightarrow> Inr (objective_value sol) | None \<Rightarrow> Inr (- 1))"
    unfolding LPSolver_init_snd parsed mform by (rule sres)
  have len: "length (allocCostCF inst) = nC" "length (distanceCF inst) = nC"
      "length (demandC inst) = nC"
      "\<forall>row \<in> set (allocCostCF inst). length row = nF"
      "\<forall>row \<in> set (distanceCF inst). length row = nF"
    using shape(3,4,5,6) dem by (simp_all only: nC nF)
  have obj: "objective m = Some (EAdd (EAdd
       (ESum (map (\<lambda>f. EDiv (EMul (openingCostF inst ! f)
                  (EScalProd (x_vars nC nF ! f) (demandC inst)))
                          (capacityF inst ! f)) [0..<nF]))
       (ESum (map (\<lambda>f. EScalProd (x_vars nC nF ! f)
                          (map (\<lambda>row. row ! f) (allocCostCF inst))) [0..<nF])))
       (ESum (map (\<lambda>f. EDiv (EMul (truckUsageCost inst)
                  (EScalProd (x_vars nC nF ! f) (map (\<lambda>row. row ! f) (distanceCF inst))))
                          (truckDistLimit inst)) [0..<nF])))"
    unfolding mform nC nF by (rule reg(2))
  note ev = eval_total_cost [OF len(1) len(4) len(2) len(5) len(3)]
  show ?thesis
    by (intro exI conjI allI) (rule obj, rule ev, rule res)
qed

theorem objective_three_terms_witness:
  "\<exists>cost. objective (model (snd (solve (demo_lib [1, 0, 0, 1])
               (snd (LPSolver_init demo_rt ''scenario.txt''))))) = Some cost \<and>
          eval (assignment [1, 0, 0, 1]) cost = 702 / 100"
proof -
  let ?inst = "\<lparr> numCustomers = 2, numFacilities = 2, allocCostCF = [[1, 2], [2, 1]],
                 demandC = [10, 10], openingCostF = [5, 5], capacityF = [20, 20],
                 numMaxVehiclePerFacility = 2, truckDistLimit = 100, truckUsageCost = 1,
                 distanceCF = [[1, 1], [1, 1]] \<rparr>"
  let ?m = "model (snd (solve (demo_lib [1, 0, 0, 1]) (snd (LPSolver_init demo_rt ''scenario.txt''))))"
  have p: "snd (getLPInstance demo_rt ''scenario.txt'') = Some ?inst"
    by (simp add: scenario_parse)
  have h1: "length (demandC ?inst) = nat (numCustomers ?inst)" by simp
  have h2: "nat (numFacilities ?inst) \<le> length (openingCostF ?inst)" by simp
  have h3: "nat (numFacilities ?inst) \<le> length (capacityF ?inst)" by simp
  have h4: "\<forall>f < nat (numFacilities ?inst). capacityF ?inst ! f \<noteq> 0"
    by (auto simp add: less_Suc_eq numeral_2_eq_2)
  have h5: "truckDistLimit ?inst \<noteq> 0" by simp
  have h6: "2 = nat (numCustomers ?inst)" by simp
  have h7: "2 = nat (numFacilities ?inst)" by simp
  from objective_three_terms [OF p h1 h2 h3 h4 h5 refl h6 h7, of "demo_lib [1, 0, 0, 1]"]
  obtain cost where c: "objective ?m = Some cost"
    and e: "\<forall>v. eval v cost =
         (\<Sum>f<2. openingCostF ?inst ! f * (\<Sum>c<2. v (x_index 2 f c) * demandC ?inst ! c)
                     / capacityF ?inst ! f
                 + (\<Sum>c<2. v (x_index 2 f c) * allocCostCF ?inst ! c ! f)
                 + truckUsageCost ?inst * (\<Sum>c<2. v (x_index 2 f c) * distanceCF ?inst ! c ! f)
                     / truckDistLimit ?inst)"
    by blast
  have two: "{..<2::nat} = {0, 1}" by auto
  from e have "eval (assignment [1, 0, 0, 1]) cost =
         (\<Sum>f<2. openingCostF ?inst ! f * (\<Sum>c<2. assignment [1, 0, 0, 1] (x_index 2 f c) * demandC ?inst ! c)
                     / capacityF ?inst ! f
                 + (\<Sum>c<2. assignment [1, 0, 0, 1] (x_index 2 f c) * allocCostCF ?inst ! c ! f)
                 + truckUsageCost ?inst * (\<Sum>c<2. assignment [1, 0, 0, 1] (x_index 2 f c) * distanceCF ?inst ! c ! f)
                     / truckDistLimit ?inst)"
    by (rule spec)
  also have "\<dots> = 702 / 100"
    by (simp add: two x_index_def assignment_def)
  finally have "eval (assignment [1, 0, 0, 1]) cost = 702 / 100" .
  with c show ?thesis by blast
qed

subsection \<open>The value returned\<close>

lemma solve_fresh:
  "fst (solve lib \<lparr> lpinst = Some inst, model = m0 \<rparr>) =
     (case fst (formulate lib inst m0) of
        Inl e \<Rightarrow> Inl e
      | Inr u \<Rightarrow>
          (case engine lib (snd (formulate lib inst m0)) of
             Some sol \<Rightarrow> Inr (objective_value sol)
           | None \<Rightarrow> Inr (- 1)))"
  by (simp add: solve_def split: prod.splits sum.splits option.splits)

text \<open>
  The model built from the file with allocation cost \<open>-1\<close>, and its feasible points: the
  coverage constraint forces \<open>x[0][0] = 1\<close>, where the objective is \<open>-1\<close>. So \<open>-1\<close> is the
  optimal objective of this model.
\<close>

lemma negative_cost_model:
  "model (snd (solve (demo_lib [1]) (snd (LPSolver_init demo_rt ''negative_cost.txt'')))) =
     \<lparr> variables = [\<lparr> lb = 0, ub = 1, vartype = ContinuousVar \<rparr>],
       constraints =
         [\<lparr> lhs = ESum [EVar 0], sense = EQ, rhs = 1, ctname = None \<rparr>,
          \<lparr> lhs = EScalProd [EVar 0] [1], sense = LE, rhs = 1,
            ctname = Some ''CapacityConstraint_F0'' \<rparr>,
          \<lparr> lhs = EDiv (EScalProd [EVar 0] [0]) 1, sense = LE, rhs = 1, ctname = None \<rparr>],
       objective = Some (EAdd (EAdd (ESum [EDiv (EMul 0 (EScalProd [EVar 0] [1])) 1])
                                    (ESum [EScalProd [EVar 0] [- 1]]))
                              (ESum [EDiv (EMul 0 (EScalProd [EVar 0] [0])) 1])) \<rparr>"
  by code_simp

lemma negative_cost_optimum:
  assumes "feasible v (model (snd (solve (demo_lib [1])
              (snd (LPSolver_init demo_rt ''negative_cost.txt'')))))"
  shows "v 0 = 1"
    and "eval v (EAdd (EAdd (ESum [EDiv (EMul 0 (EScalProd [EVar 0] [1])) 1])
                            (ESum [EScalProd [EVar 0] [- 1]]))
                      (ESum [EDiv (EMul 0 (EScalProd [EVar 0] [0])) 1])) = - 1"
proof -
  from assms show "v 0 = 1"
    unfolding negative_cost_model by (simp add: feasible_def holds_def)
  then show "eval v (EAdd (EAdd (ESum [EDiv (EMul 0 (EScalProd [EVar 0] [1])) 1])
                            (ESum [EScalProd [EVar 0] [- 1]]))
                      (ESum [EDiv (EMul 0 (EScalProd [EVar 0] [0])) 1])) = - 1"
    by simp
qed

text \<open>
  C6, the claim as stated fails: on the file with allocation cost \<open>-1\<close> the optimiser
  finds the solution \<open>x[0][0] = 1\<close> with objective \<open>-1\<close>, and \<^verbatim>\<open>solve\<close> returns \<open>-1\<close>: the
  value of the sentinel, although a solution was found.
\<close>

theorem sentinel_returned_with_solution:
  "snd (getLPInstance demo_rt ''negative_cost.txt'') =
      Some \<lparr> numCustomers = 1, numFacilities = 1, allocCostCF = [[- 1]],
             demandC = [1], openingCostF = [0], capacityF = [1],
             numMaxVehiclePerFacility = 1, truckDistLimit = 1, truckUsageCost = 0,
             distanceCF = [[0]] \<rparr> \<and>
   fst (solve (demo_lib [1]) (snd (LPSolver_init demo_rt ''negative_cost.txt''))) = Inr (- 1) \<and>
   engine (demo_lib [1])
     (model (snd (solve (demo_lib [1]) (snd (LPSolver_init demo_rt ''negative_cost.txt'')))))
     = Some \<lparr> objective_value = - 1, var_values = [1] \<rparr>"
  by code_simp

text \<open>
  C6, amended. A completed call of \<^verbatim>\<open>solve\<close> returns the objective value of the
  optimiser's solution when the optimiser finds one, and \<open>-1\<close> when it reports none;
  nothing else is returned. The value \<open>-1\<close> means that no solution was found exactly
  when no solution of the model has the objective value \<open>-1\<close> itself.
\<close>

theorem solve_returns_objective_or_sentinel:
  assumes completed: "fst (solve lib (snd (LPSolver_init rt fileName))) = Inr r"
    and m: "m = model (snd (solve lib (snd (LPSolver_init rt fileName))))"
  shows "r = (case engine lib m of Some sol \<Rightarrow> objective_value sol | None \<Rightarrow> - 1) \<and>
         ((\<forall>sol. engine lib m = Some sol \<longrightarrow> objective_value sol \<noteq> - 1) \<longrightarrow>
            (r = - 1 \<longleftrightarrow> engine lib m = None))"
proof (cases "snd (getLPInstance rt fileName)")
  case None
  then have "fst (solve lib (snd (LPSolver_init rt fileName))) = Inl AttributeError"
    by (simp add: LPSolver_init_snd solve_def)
  with completed show ?thesis by simp
next
  case (Some inst)
  have mform: "m = snd (formulate lib inst Model_new)"
    using Some by (simp add: m LPSolver_init_snd solve_model)
  have sr: "fst (solve lib \<lparr> lpinst = Some inst, model = Model_new \<rparr>) =
       (case fst (formulate lib inst Model_new) of
          Inl e \<Rightarrow> Inl e
        | Inr u \<Rightarrow>
            (case engine lib (snd (formulate lib inst Model_new)) of
               Some sol \<Rightarrow> Inr (objective_value sol)
             | None \<Rightarrow> Inr (- 1)))"
    by (rule solve_fresh)
  have "fst (solve lib (snd (LPSolver_init rt fileName))) =
       (case fst (formulate lib inst Model_new) of
          Inl e \<Rightarrow> Inl e
        | Inr u \<Rightarrow>
            (case engine lib m of
               Some sol \<Rightarrow> Inr (objective_value sol)
             | None \<Rightarrow> Inr (- 1)))"
    unfolding LPSolver_init_snd Some mform by (rule sr)
  with completed have r: "r = (case engine lib m of Some sol \<Rightarrow> objective_value sol | None \<Rightarrow> - 1)"
    by (auto split: sum.splits option.splits)
  then show ?thesis by (auto split: option.splits)
qed

theorem solve_returns_objective_or_sentinel_witness:
  "fst (solve (demo_lib [1, 0, 0, 1]) (snd (LPSolver_init demo_rt ''scenario.txt''))) = Inr (702 / 100) \<and>
   engine (demo_lib [1, 0, 0, 1])
     (model (snd (solve (demo_lib [1, 0, 0, 1]) (snd (LPSolver_init demo_rt ''scenario.txt'')))))
     \<noteq> None"
proof -
  let ?s = "solve (demo_lib [1, 0, 0, 1]) (snd (LPSolver_init demo_rt ''scenario.txt''))"
  have c: "fst ?s = Inr (702 / 100)" by code_simp
  have e: "engine (demo_lib [1, 0, 0, 1]) (model (snd ?s))
      = Some \<lparr> objective_value = 702 / 100, var_values = [1, 0, 0, 1] \<rparr>"
    by code_simp
  from solve_returns_objective_or_sentinel [OF c refl]
  have "(702 / 100 :: real) = (case engine (demo_lib [1, 0, 0, 1]) (model (snd ?s)) of
           Some sol \<Rightarrow> objective_value sol | None \<Rightarrow> - 1)"
    by (rule conjunct1)
  then have "engine (demo_lib [1, 0, 0, 1]) (model (snd ?s)) \<noteq> None"
    by (auto split: option.splits)
  with c show ?thesis by simp
qed

subsection \<open>Total capacity below total demand\<close>

lemma coverage_and_capacity_exclusive:
  fixes x :: "nat \<Rightarrow> nat \<Rightarrow> real"
  assumes cov: "\<forall>c < nC. (\<Sum>f<nF. x f c) = 1"
    and capc: "\<forall>f < nF. (\<Sum>c<nC. x f c * d c) \<le> cp f"
    and deficit: "(\<Sum>f<nF. cp f) < (\<Sum>c<nC. d c)"
  shows False
proof -
  have "(\<Sum>c<nC. d c) = (\<Sum>c<nC. (\<Sum>f<nF. x f c) * d c)"
    using cov by (intro sum.cong) simp_all
  also have "\<dots> = (\<Sum>c<nC. \<Sum>f<nF. x f c * d c)"
    by (simp add: sum_distrib_right)
  also have "\<dots> = (\<Sum>f<nF. \<Sum>c<nC. x f c * d c)"
    by (rule sum.swap)
  also have "\<dots> \<le> (\<Sum>f<nF. cp f)"
    using capc by (intro sum_mono) simp
  finally show False using deficit by simp
qed

lemma trial_engine_sound:
  "trial_engine cand m = Some sol \<Longrightarrow> feasible (value_of sol) m"
proof -
  assume a: "trial_engine cand m = Some sol"
  then have f: "feasible (assignment cand) m" and v: "var_values sol = cand"
    by (auto simp add: trial_engine_def split: if_splits)
  have "value_of sol = assignment cand"
    by (rule ext) (simp add: value_of_def assignment_def v)
  with f show ?thesis by simp
qed

text \<open>
  C7, the claim as stated fails: the file with an empty opening-cost line has demand 5
  and capacity 1, and \<^verbatim>\<open>solve\<close> raises \<^verbatim>\<open>IndexError\<close> instead of returning the
  no-solution value.
\<close>

theorem deficit_instance_raises:
  "map_option demandC (snd (getLPInstance demo_rt ''no_opening.txt'')) = Some [5] \<and>
   map_option capacityF (snd (getLPInstance demo_rt ''no_opening.txt'')) = Some [1] \<and>
   map_option numCustomers (snd (getLPInstance demo_rt ''no_opening.txt'')) = Some 1 \<and>
   map_option numFacilities (snd (getLPInstance demo_rt ''no_opening.txt'')) = Some 1 \<and>
   sum_list [1 :: real] < sum_list [5] \<and>
   fst (solve (demo_lib [1]) (snd (LPSolver_init demo_rt ''no_opening.txt''))) = Inl IndexError \<and>
   fst (solve (demo_lib [1]) (snd (LPSolver_init demo_rt ''no_opening.txt''))) \<noteq> Inr (- 1)"
  by code_simp

text \<open>
  C7, amended. For every instance that the reader returns whose demand vector has
  \<open>numCustomers\<close> entries, whose opening-cost and capacity vectors have at least
  \<open>numFacilities\<close> entries, with every \<open>capacity[f]\<close> and the truck distance limit
  nonzero, and whose total capacity is strictly less than its total demand: no
  assignment satisfies both the coverage equalities and the capacity inequalities
  (whatever the signs of the demands and the bounds of the assignment), the model
  built has no feasible point, and \<^verbatim>\<open>solve\<close> returns \<open>-1\<close> with every optimiser that
  returns feasible solutions only.
\<close>

theorem deficit_yields_no_solution:
  assumes parsed: "snd (getLPInstance rt fileName) = Some inst"
    and dem: "length (demandC inst) = nat (numCustomers inst)"
    and opn: "nat (numFacilities inst) \<le> length (openingCostF inst)"
    and cap: "nat (numFacilities inst) \<le> length (capacityF inst)"
    and capnz: "\<forall>f < nat (numFacilities inst). capacityF inst ! f \<noteq> 0"
    and lim: "truckDistLimit inst \<noteq> 0"
    and nC: "nC = nat (numCustomers inst)" and nF: "nF = nat (numFacilities inst)"
    and deficit: "(\<Sum>f<nF. capacityF inst ! f) < (\<Sum>c<nC. demandC inst ! c)"
    and m: "m = model (snd (solve lib (snd (LPSolver_init rt fileName))))"
    and sound: "\<And>sol. engine lib m = Some sol \<Longrightarrow> feasible (value_of sol) m"
  shows "(\<forall>x :: nat \<Rightarrow> nat \<Rightarrow> real.
            \<not> ((\<forall>c < nC. (\<Sum>f<nF. x f c) = 1) \<and>
               (\<forall>f < nF. (\<Sum>c<nC. x f c * demandC inst ! c) \<le> capacityF inst ! f))) \<and>
         (\<forall>v. \<not> feasible v m) \<and>
         fst (solve lib (snd (LPSolver_init rt fileName))) = Inr (- 1)"
proof -
  note shape = parsed_shape [OF parsed]
  have math: "\<not> ((\<forall>c < nC. (\<Sum>f<nF. x f c) = 1) \<and>
               (\<forall>f < nF. (\<Sum>c<nC. x f c * demandC inst ! c) \<le> capacityF inst ! f))"
    for x :: "nat \<Rightarrow> nat \<Rightarrow> real"
    using coverage_and_capacity_exclusive [where nC = nC and nF = nF and x = x
        and d = "\<lambda>c. demandC inst ! c" and cp = "\<lambda>f. capacityF inst ! f"] deficit
    by blast
  have mform: "m = snd (formulate lib inst Model_new)"
    using parsed by (simp add: m LPSolver_init_snd solve_model)
  let ?x = "x_vars nC nF"
  have cs: "constraints m =
      map (coverage_ct inst ?x) [0..<nC] @
      map (\<lambda>f. capacity_ct inst ?x f (capacityF inst ! f)) [0..<nF] @
      map (\<lambda>f. truck_ct inst
             (EDiv (EScalProd (?x ! f) (map (\<lambda>row. row ! f) (distanceCF inst)))
                (truckDistLimit inst))) [0..<nF]"
    unfolding mform nC nF by (rule formulate_constraints [OF shape(6) cap lim])
  have dem': "length (demandC inst) = nC" using dem nC by simp
  have infeasible: "\<not> feasible v m" for v
  proof
    assume "feasible v m"
    then have all: "\<forall>ct \<in> set (constraints m). holds v ct"
      by (simp add: feasible_def list_all_iff)
    have c1: "\<forall>c < nC. (\<Sum>f<nF. v (x_index nC f c)) = 1"
    proof (intro allI impI)
      fix c assume c: "c < nC"
      then have "coverage_ct inst ?x c \<in> set (constraints m)" by (simp add: cs)
      with all have "holds v (coverage_ct inst ?x c)" by blast
      then have "eval v (ESum (map (\<lambda>f. ?x ! f ! c) [0..<nF])) = 1"
        by (simp add: holds_def coverage_ct_def py_range_def nF del: eval.simps)
      then show "(\<Sum>f<nF. v (x_index nC f c)) = 1"
        by (simp only: eval_coverage [OF c])
    qed
    have c2: "\<forall>f < nF. (\<Sum>c<nC. v (x_index nC f c) * demandC inst ! c) \<le> capacityF inst ! f"
    proof (intro allI impI)
      fix f assume f: "f < nF"
      then have "capacity_ct inst ?x f (capacityF inst ! f) \<in> set (constraints m)"
        by (simp add: cs)
      with all have "holds v (capacity_ct inst ?x f (capacityF inst ! f))" by blast
      then have "eval v (EScalProd (?x ! f) (demandC inst)) \<le> capacityF inst ! f"
        by (simp add: holds_def capacity_ct_def del: eval.simps)
      then show "(\<Sum>c<nC. v (x_index nC f c) * demandC inst ! c) \<le> capacityF inst ! f"
        by (simp only: eval_row_product [OF f dem'])
    qed
    from math [of "\<lambda>f c. v (x_index nC f c)"] c1 c2 show False by blast
  qed
  have none: "engine lib m = None"
  proof (cases "engine lib m")
    case None
    then show ?thesis .
  next
    case (Some sol)
    from sound [OF Some] infeasible show ?thesis by blast
  qed
  note reg = formulate_regular [OF shape(4) shape(6) opn cap capnz lim, of lib]
  have sr: "fst (solve lib \<lparr> lpinst = Some inst, model = Model_new \<rparr>) =
       (case fst (formulate lib inst Model_new) of
          Inl e \<Rightarrow> Inl e
        | Inr u \<Rightarrow>
            (case engine lib (snd (formulate lib inst Model_new)) of
               Some sol \<Rightarrow> Inr (objective_value sol)
             | None \<Rightarrow> Inr (- 1)))"
    by (rule solve_fresh)
  have res: "fst (solve lib (snd (LPSolver_init rt fileName))) = Inr (- 1)"
    unfolding LPSolver_init_snd parsed sr reg(1) using none by (simp add: mform)
  from math infeasible res show ?thesis by blast
qed

theorem deficit_yields_no_solution_witness:
  "fst (solve (demo_lib [1]) (snd (LPSolver_init demo_rt ''overload.txt''))) = Inr (- 1) \<and>
   \<not> feasible (assignment [1])
       (model (snd (solve (demo_lib [1]) (snd (LPSolver_init demo_rt ''overload.txt'')))))"
proof -
  let ?inst = "\<lparr> numCustomers = 1, numFacilities = 1, allocCostCF = [[1]],
             demandC = [5], openingCostF = [1], capacityF = [1],
             numMaxVehiclePerFacility = 1, truckDistLimit = 1, truckUsageCost = 1,
             distanceCF = [[1]] \<rparr>"
  let ?m = "model (snd (solve (demo_lib [1]) (snd (LPSolver_init demo_rt ''overload.txt''))))"
  have p: "snd (getLPInstance demo_rt ''overload.txt'') = Some ?inst" by code_simp
  have h1: "length (demandC ?inst) = nat (numCustomers ?inst)" by simp
  have h2: "nat (numFacilities ?inst) \<le> length (openingCostF ?inst)" by simp
  have h3: "nat (numFacilities ?inst) \<le> length (capacityF ?inst)" by simp
  have h4: "\<forall>f < nat (numFacilities ?inst). capacityF ?inst ! f \<noteq> 0" by simp
  have h5: "truckDistLimit ?inst \<noteq> 0" by simp
  have h6: "1 = nat (numCustomers ?inst)" by simp
  have h7: "1 = nat (numFacilities ?inst)" by simp
  have h8: "(\<Sum>f<1. capacityF ?inst ! f) < (\<Sum>c<1. demandC ?inst ! c)" by simp
  have h9: "feasible (value_of sol) ?m" if "engine (demo_lib [1]) ?m = Some sol" for sol
    using that by (intro trial_engine_sound [of "[1]"]) (simp add: demo_lib_def)
  note t = deficit_yields_no_solution [OF p h1 h2 h3 h4 h5 h6 h7 h8 refl h9]
  from t have a: "fst (solve (demo_lib [1]) (snd (LPSolver_init demo_rt ''overload.txt''))) = Inr (- 1)"
    by blast
  from t have "\<forall>v. \<not> feasible v ?m" by blast
  then have b: "\<not> feasible (assignment [1]) ?m" by (rule spec)
  from a b show ?thesis by (rule conjI)
qed

subsection \<open>Zero divisors\<close>

















end
